theory Spec2Isabelle
  imports Main "HOL-Library.Word"
begin

section \<open>JavaScript strings\<close>

text \<open>
  A JavaScript string is a sequence of 16-bit code units. \<open>U\<close> writes an ASCII literal
  as such a sequence.
\<close>

type_synonym jschar = "16 word"
type_synonym jsstring = "jschar list"

definition U :: "string \<Rightarrow> jsstring" where
  "U s = map of_char s"

text \<open>
  \<^verbatim>\<open>s.split(sep)\<close> for a one-character separator: the pieces between the separators,
  never an empty array (\<^verbatim>\<open>''.split('/')\<close> is \<^verbatim>\<open>['']\<close>).
\<close>

fun split_on :: "'a \<Rightarrow> 'a list \<Rightarrow> 'a list list" where
  "split_on sep [] = [[]]"
| "split_on sep (c # cs) =
     (if c = sep then [] # split_on sep cs
      else (case split_on sep cs of
              [] \<Rightarrow> [[c]]
            | s # ss \<Rightarrow> (c # s) # ss))"

text \<open>\<^verbatim>\<open>arr.pop()\<close> and \<^verbatim>\<open>arr[0]\<close>: \<^verbatim>\<open>undefined\<close> (here \<open>None\<close>) on an empty array.\<close>

definition pop :: "'a list \<Rightarrow> 'a option" where
  "pop xs = (case xs of [] \<Rightarrow> None | _ # _ \<Rightarrow> Some (last xs))"

definition first_elem :: "'a list \<Rightarrow> 'a option" where
  "first_elem xs = (case xs of [] \<Rightarrow> None | x # _ \<Rightarrow> Some x)"

text \<open>
  \<^verbatim>\<open>s.replace(pat, rep)\<close> with a string pattern: the first occurrence of \<open>pat\<close> in \<open>s\<close>,
  wherever it is, is replaced; \<open>s\<close> is returned as it is when there is none.
\<close>

fun is_prefix :: "'a list \<Rightarrow> 'a list \<Rightarrow> bool" where
  "is_prefix [] ys = True"
| "is_prefix (x # xs) [] = False"
| "is_prefix (x # xs) (y # ys) = (x = y \<and> is_prefix xs ys)"

fun replace_first :: "'a list \<Rightarrow> 'a list \<Rightarrow> 'a list \<Rightarrow> 'a list" where
  "replace_first pat rep [] = (if pat = [] then rep else [])"
| "replace_first pat rep (c # cs) =
     (if is_prefix pat (c # cs) then rep @ drop (length pat) (c # cs)
      else c # replace_first pat rep cs)"

text \<open>
  Iterating a string (\<^verbatim>\<open>[...s]\<close>) yields its code points: a high surrogate followed by a
  low surrogate is one element, every other code unit is an element of its own.
\<close>

definition is_high_surrogate :: "jschar \<Rightarrow> bool" where
  "is_high_surrogate c = (0xD800 \<le> c \<and> c \<le> 0xDBFF)"

definition is_low_surrogate :: "jschar \<Rightarrow> bool" where
  "is_low_surrogate c = (0xDC00 \<le> c \<and> c \<le> 0xDFFF)"

fun code_points :: "jsstring \<Rightarrow> jsstring list" where
  "code_points [] = []"
| "code_points [c] = [[c]]"
| "code_points (c # d # cs) =
     (if is_high_surrogate c \<and> is_low_surrogate d then [c, d] # code_points cs
      else [c] # code_points (d # cs))"

section \<open>JSON.parse\<close>

text \<open>
  The values \<^verbatim>\<open>JSON.parse\<close> returns. A number keeps its lexeme: nothing in the
  program computes with it. An object keeps its members in the order of the text.
\<close>

datatype json =
    JNull
  | JBool bool
  | JNum jsstring
  | JStr jsstring
  | JArr "json list"
  | JObj "(jsstring \<times> json) list"

datatype token =
    TLBracket | TRBracket | TLBrace | TRBrace | TComma | TColon
  | TScalar json

definition is_ws :: "jschar \<Rightarrow> bool" where
  "is_ws c = (c = 0x20 \<or> c = 0x09 \<or> c = 0x0A \<or> c = 0x0D)"

definition is_digit :: "jschar \<Rightarrow> bool" where
  "is_digit c = (0x30 \<le> c \<and> c \<le> 0x39)"

definition hexval :: "jschar \<Rightarrow> nat option" where
  "hexval c =
     (if 0x30 \<le> c \<and> c \<le> 0x39 then Some (unat c - 0x30)
      else if 0x41 \<le> c \<and> c \<le> 0x46 then Some (unat c - 0x41 + 10)
      else if 0x61 \<le> c \<and> c \<le> 0x66 then Some (unat c - 0x61 + 10)
      else None)"

text \<open>The character a one-letter escape \<^verbatim>\<open>\c\<close> stands for.\<close>

definition unescape :: "jschar \<Rightarrow> jschar option" where
  "unescape e =
     (if e = 0x22 then Some 0x22
      else if e = 0x5C then Some 0x5C
      else if e = 0x2F then Some 0x2F
      else if e = 0x62 then Some 0x08
      else if e = 0x66 then Some 0x0C
      else if e = 0x6E then Some 0x0A
      else if e = 0x72 then Some 0x0D
      else if e = 0x74 then Some 0x09
      else None)"

text \<open>The four hexadecimal digits of a \<^verbatim>\<open>\uXXXX\<close> escape: one code unit.\<close>

definition hex4 :: "jsstring \<Rightarrow> (jschar \<times> jsstring) option" where
  "hex4 cs =
     (case cs of
        h1 # h2 # h3 # h4 # rest \<Rightarrow>
          (case hexval h1 of None \<Rightarrow> None | Some a \<Rightarrow>
          (case hexval h2 of None \<Rightarrow> None | Some b \<Rightarrow>
          (case hexval h3 of None \<Rightarrow> None | Some c \<Rightarrow>
          (case hexval h4 of None \<Rightarrow> None | Some d \<Rightarrow>
             Some (of_nat (((a * 16 + b) * 16 + c) * 16 + d), rest)))))
      | _ \<Rightarrow> None)"

lemma hex4_length: "hex4 cs = Some (u, rest) \<Longrightarrow> length rest < length cs"
  by (auto simp: hex4_def split: list.splits option.splits)

text \<open>
  A string literal after its opening quote: the decoded characters (accumulated in
  reverse) and the text after the closing quote. Control characters below U+0020 must be
  escaped.
\<close>

function lex_string :: "jsstring \<Rightarrow> jsstring \<Rightarrow> (jsstring \<times> jsstring) option" where
  "lex_string acc [] = None"
| "lex_string acc (c # cs) =
     (if c = 0x22 then Some (rev acc, cs)
      else if c = 0x5C then
        (case cs of
           [] \<Rightarrow> None
         | e # es \<Rightarrow>
             if e = 0x75 then
               (case hex4 es of
                  None \<Rightarrow> None
                | Some (u, rest) \<Rightarrow> lex_string (u # acc) rest)
             else
               (case unescape e of
                  None \<Rightarrow> None
                | Some x \<Rightarrow> lex_string (x # acc) es))
      else if c < 0x20 then None
      else lex_string (c # acc) cs)"
  by pat_completeness auto
termination
  by (relation "measure (\<lambda>(acc, cs). length cs)") (auto dest: hex4_length)

text \<open>
  A number: \<^verbatim>\<open>-? (0 | [1-9][0-9]*) (. [0-9]+)? ([eE] [+-]? [0-9]+)?\<close>. Each part
  returns its lexeme and the remaining text.
\<close>

definition lex_int :: "jsstring \<Rightarrow> (jsstring \<times> jsstring) option" where
  "lex_int cs =
     (case cs of
        [] \<Rightarrow> None
      | d # r \<Rightarrow>
          if \<not> is_digit d then None
          else if d = 0x30 then Some ([d], r)
          else Some (d # takeWhile is_digit r, dropWhile is_digit r))"

definition lex_frac :: "jsstring \<Rightarrow> (jsstring \<times> jsstring) option" where
  "lex_frac cs =
     (case cs of
        [] \<Rightarrow> Some ([], [])
      | c # r \<Rightarrow>
          if c = 0x2E then
            (if takeWhile is_digit r = [] then None
             else Some (c # takeWhile is_digit r, dropWhile is_digit r))
          else Some ([], cs))"

definition lex_exp :: "jsstring \<Rightarrow> (jsstring \<times> jsstring) option" where
  "lex_exp cs =
     (case cs of
        [] \<Rightarrow> Some ([], [])
      | c # r \<Rightarrow>
          if c = 0x65 \<or> c = 0x45 then
            (let (sg, r') = (case r of
                               [] \<Rightarrow> ([], [])
                             | s # r'' \<Rightarrow> if s = 0x2B \<or> s = 0x2D then ([s], r'') else ([], r))
             in if takeWhile is_digit r' = [] then None
                else Some (c # sg @ takeWhile is_digit r', dropWhile is_digit r'))
          else Some ([], cs))"

definition lex_number :: "jsstring \<Rightarrow> (jsstring \<times> jsstring) option" where
  "lex_number cs =
     (let (sg, r0) = (case cs of
                        [] \<Rightarrow> ([], [])
                      | c # r \<Rightarrow> if c = 0x2D then ([c], r) else ([], cs))
      in case lex_int r0 of
           None \<Rightarrow> None
         | Some (ip, r1) \<Rightarrow>
             (case lex_frac r1 of
                None \<Rightarrow> None
              | Some (fp, r2) \<Rightarrow>
                  (case lex_exp r2 of
                     None \<Rightarrow> None
                   | Some (ep, r3) \<Rightarrow> Some (sg @ ip @ fp @ ep, r3))))"

text \<open>Each lexeme is shorter than the text it was cut from, so that lexing ends.\<close>

lemma lex_string_length:
  "lex_string acc cs = Some (s, rest) \<Longrightarrow> length rest < length cs"
proof (induction acc cs rule: lex_string.induct)
  case (1 acc)
  then show ?case by simp
next
  case (2 acc c cs)
  show ?case
  proof (cases "c = 0x22")
    case True
    with "2.prems" show ?thesis by simp
  next
    case nq: False
    show ?thesis
    proof (cases "c = 0x5C")
      case True
      show ?thesis
      proof (cases cs)
        case Nil
        with "2.prems" nq True show ?thesis by simp
      next
        case (Cons e es)
        show ?thesis
        proof (cases "e = 0x75")
          case u: True
          from "2.prems" nq True Cons u obtain v r where
            h: "hex4 es = Some (v, r)" and rec: "lex_string (v # acc) r = Some (s, rest)"
            by (auto split: option.splits)
          from "2.IH"(1)[OF nq True Cons u h refl rec] hex4_length[OF h] Cons
          show ?thesis by simp
        next
          case nu: False
          from "2.prems" nq True Cons nu obtain x where
            x: "unescape e = Some x" and rec: "lex_string (x # acc) es = Some (s, rest)"
            by (auto split: option.splits)
          from "2.IH"(2)[OF nq True Cons nu x rec] Cons show ?thesis by simp
        qed
      qed
    next
      case nb: False
      with "2.prems" nq have lt: "\<not> c < 0x20"
        and rec: "lex_string (c # acc) cs = Some (s, rest)"
        by (auto split: if_splits)
      from "2.IH"(3)[OF nq nb lt rec] show ?thesis by simp
    qed
  qed
qed

lemma lex_int_length: "lex_int cs = Some (s, rest) \<Longrightarrow> length rest < length cs"
  by (auto simp: lex_int_def less_Suc_eq_le length_dropWhile_le split: list.splits if_splits)

lemma lex_frac_length: "lex_frac cs = Some (s, rest) \<Longrightarrow> length rest \<le> length cs"
  by (auto simp: lex_frac_def le_SucI length_dropWhile_le split: list.splits if_splits)

lemma lex_exp_length: "lex_exp cs = Some (s, rest) \<Longrightarrow> length rest \<le> length cs"
  by (auto simp: lex_exp_def le_SucI length_dropWhile_le Let_def split: list.splits if_splits)

lemma lex_number_length:
  assumes "lex_number cs = Some (s, rest)"
  shows "length rest < length cs"
proof -
  define r0 where "r0 = (case cs of [] \<Rightarrow> [] | c # r \<Rightarrow> if c = 0x2D then r else cs)"
  have r0: "length r0 \<le> length cs"
    by (auto simp: r0_def split: list.splits)
  from assms obtain ip r1 fp r2 ep where
    a: "lex_int r0 = Some (ip, r1)" and b: "lex_frac r1 = Some (fp, r2)"
    and c: "lex_exp r2 = Some (ep, rest)"
    by (auto simp: lex_number_def r0_def split: list.splits if_splits option.splits)
  from lex_int_length[OF a] lex_frac_length[OF b] lex_exp_length[OF c] r0
  show ?thesis by linarith
qed

text \<open>
  The tokens of a JSON text. White space (space, tab, line feed, carriage return) may
  stand between any two tokens; the literals are \<^verbatim>\<open>null\<close>, \<^verbatim>\<open>true\<close> and \<^verbatim>\<open>false\<close>;
  any other character is a syntax error (\<open>None\<close>).
\<close>

definition cons_token :: "token \<Rightarrow> token list option \<Rightarrow> token list option" where
  "cons_token t r = (case r of None \<Rightarrow> None | Some ts \<Rightarrow> Some (t # ts))"

function lex :: "jsstring \<Rightarrow> token list option" where
  "lex [] = Some []"
| "lex (c # cs) =
     (if is_ws c then lex cs
      else if c = 0x5B then cons_token TLBracket (lex cs)
      else if c = 0x5D then cons_token TRBracket (lex cs)
      else if c = 0x7B then cons_token TLBrace (lex cs)
      else if c = 0x7D then cons_token TRBrace (lex cs)
      else if c = 0x2C then cons_token TComma (lex cs)
      else if c = 0x3A then cons_token TColon (lex cs)
      else if c = 0x22 then
        (case lex_string [] cs of
           None \<Rightarrow> None
         | Some (s, rest) \<Rightarrow> cons_token (TScalar (JStr s)) (lex rest))
      else if c = 0x2D \<or> is_digit c then
        (case lex_number (c # cs) of
           None \<Rightarrow> None
         | Some (n, rest) \<Rightarrow> cons_token (TScalar (JNum n)) (lex rest))
      else if is_prefix (U ''null'') (c # cs) then
        cons_token (TScalar JNull) (lex (drop 3 cs))
      else if is_prefix (U ''true'') (c # cs) then
        cons_token (TScalar (JBool True)) (lex (drop 3 cs))
      else if is_prefix (U ''false'') (c # cs) then
        cons_token (TScalar (JBool False)) (lex (drop 4 cs))
      else None)"
  by pat_completeness auto
termination
  by (relation "measure length")
     (auto dest: lex_string_length lex_number_length simp: less_Suc_eq_le)

text \<open>
  The grammar over the tokens, as a machine with a stack of the arrays and objects that
  are still open. A frame holds what its container has collected (newest first); an
  object frame with a key waits for that key's value.
\<close>

datatype frame =
    FArr "json list"
  | FObj "(jsstring \<times> json) list"
  | FKey "(jsstring \<times> json) list" jsstring

datatype mode =
    MValue      \<comment> \<open>a value must follow\<close>
  | MFirst      \<comment> \<open>after \<^verbatim>\<open>[\<close>: a value or \<^verbatim>\<open>]\<close>\<close>
  | MKeyFirst   \<comment> \<open>after \<^verbatim>\<open>{\<close>: a key or \<^verbatim>\<open>}\<close>\<close>
  | MKey        \<comment> \<open>after \<^verbatim>\<open>,\<close> in an object: a key\<close>
  | MColon      \<comment> \<open>after a key: \<^verbatim>\<open>:\<close>\<close>
  | MAfter      \<comment> \<open>after a value: \<^verbatim>\<open>,\<close>, a closing bracket, or the end\<close>

type_synonym pstate = "mode \<times> frame list \<times> json option"

text \<open>A finished value goes into the innermost open container, or is the result.\<close>

definition complete :: "json \<Rightarrow> frame list \<Rightarrow> pstate option" where
  "complete v st =
     (case st of
        [] \<Rightarrow> Some (MAfter, [], Some v)
      | FArr xs # r \<Rightarrow> Some (MAfter, FArr (v # xs) # r, None)
      | FKey ms k # r \<Rightarrow> Some (MAfter, FObj ((k, v) # ms) # r, None)
      | FObj ms # r \<Rightarrow> None)"

definition wants_value :: "mode \<Rightarrow> bool" where
  "wants_value m = (m = MValue \<or> m = MFirst)"

definition wants_key :: "mode \<Rightarrow> bool" where
  "wants_key m = (m = MKeyFirst \<or> m = MKey)"

fun parse_step :: "pstate \<Rightarrow> token \<Rightarrow> pstate option" where
  "parse_step (m, st, res) (TScalar v) =
     (if wants_value m then complete v st
      else if wants_key m then
        (case (v, st) of
           (JStr k, FObj ms # r) \<Rightarrow> Some (MColon, FKey ms k # r, None)
         | _ \<Rightarrow> None)
      else None)"
| "parse_step (m, st, res) TLBracket =
     (if wants_value m then Some (MFirst, FArr [] # st, None) else None)"
| "parse_step (m, st, res) TLBrace =
     (if wants_value m then Some (MKeyFirst, FObj [] # st, None) else None)"
| "parse_step (m, st, res) TRBracket =
     (if m = MFirst \<or> m = MAfter then
        (case st of FArr xs # r \<Rightarrow> complete (JArr (rev xs)) r | _ \<Rightarrow> None)
      else None)"
| "parse_step (m, st, res) TRBrace =
     (if m = MKeyFirst \<or> m = MAfter then
        (case st of FObj ms # r \<Rightarrow> complete (JObj (rev ms)) r | _ \<Rightarrow> None)
      else None)"
| "parse_step (m, st, res) TComma =
     (if m = MAfter then
        (case st of
           FArr xs # r \<Rightarrow> Some (MValue, st, None)
         | FObj ms # r \<Rightarrow> Some (MKey, st, None)
         | _ \<Rightarrow> None)
      else None)"
| "parse_step (m, st, res) TColon =
     (if m = MColon then Some (MValue, st, None) else None)"

fun parse_tokens :: "pstate \<Rightarrow> token list \<Rightarrow> json option" where
  "parse_tokens (m, st, res) [] = (if m = MAfter \<and> st = [] then res else None)"
| "parse_tokens ps (t # ts) =
     (case parse_step ps t of
        None \<Rightarrow> None
      | Some ps' \<Rightarrow> parse_tokens ps' ts)"

text \<open>\<^verbatim>\<open>JSON.parse(text)\<close>: the value, or \<open>None\<close> where it throws a SyntaxError.\<close>

definition JSON_parse :: "jsstring \<Rightarrow> json option" where
  "JSON_parse text =
     (case lex text of
        None \<Rightarrow> None
      | Some ts \<Rightarrow> parse_tokens (MValue, [], None) ts)"

section \<open>Data model\<close>

text \<open>
  Modelled from the spec: the Car and User schemas (\<^verbatim>\<open>models/Car.js\<close>, \<^verbatim>\<open>models/User.js\<close>) are
  not among the sources. A car record is \<open>{id, title, description, tags[], images[], user}\<close>;
  of a user only the identifier matters. Identifiers are strings (\<^verbatim>\<open>req.params.id\<close>,
  \<^verbatim>\<open>req.user.id\<close>).
\<close>

type_synonym oid = jsstring

record car =
  car_id :: oid
  title :: jsstring
  description :: jsstring
  tags :: "jsstring list"
  images :: "jsstring list"
  user :: oid

record user_doc =
  user_id :: oid

text \<open>
  A request as the handlers see it. The multipart middleware (\<^verbatim>\<open>upload.array\<close>) has stored
  each uploaded file remotely and left its URL in \<^verbatim>\<open>file.path\<close>; \<^verbatim>\<open>req.files\<close> is
  undefined (\<open>None\<close>) when the request was not multipart. \<^verbatim>\<open>existingImages\<close> is the one
  body field the code inspects: absent (\<open>None\<close>) or a string. Title, description and
  tags are handed to the store as they come; they are taken to be present and of the
  types of the record. \<open>authorization\<close> is \<^verbatim>\<open>req.header('Authorization')\<close>, \<open>req_user\<close> is
  \<^verbatim>\<open>req.user\<close>, undefined until the authentication middleware sets it.
\<close>

record uploaded_file =
  path :: jsstring

record body =
  body_title :: jsstring
  body_description :: jsstring
  body_tags :: "jsstring list"
  existingImages :: "jsstring option"

record request =
  authorization :: "jsstring option"
  params_id :: oid
  body :: body
  files :: "uploaded_file list option"
  req_user :: "user_doc option"

text \<open>The update document handed to \<^verbatim>\<open>findOneAndUpdate\<close>; \<open>images\<close> is whatever was parsed.\<close>

record update_data =
  ud_title :: jsstring
  ud_description :: jsstring
  ud_tags :: "jsstring list"
  ud_images :: json

text \<open>Every call that leaves the process: the two collections and the remote asset store.\<close>

datatype event =
    UserFindById oid
  | CarSave car
  | CarFindOne oid oid
  | CarFind oid
  | CarFindOneAndUpdate oid oid update_data
  | CarFindOneAndDelete oid oid
  | CloudDestroy jsstring

text \<open>
  What the program does not decide: which tokens \<^verbatim>\<open>jwt.verify\<close> accepts (and the subject
  in them), which external calls reject, how the image schema casts a value that is not
  an array of strings, and the identifiers the store assigns.
\<close>

record env =
  jwt_verify :: "jsstring \<Rightarrow> oid option"
  fails :: "event \<Rightarrow> bool"
  schema_cast :: "json \<Rightarrow> jsstring list option"
  ObjectId :: "car list \<Rightarrow> oid"

record world =
  cars :: "car list"
  users :: "user_doc list"
  trace :: "event list"

datatype payload =
    ErrorBody jsstring
  | MessageBody jsstring
  | CarBody "car option"
  | CarsBody "car list"

record response =
  status :: nat
  payload :: payload

datatype 'a outcome = Throws | Returns 'a

section \<open>The collections\<close>

text \<open>
  Modelled from the spec: the models behind \<^verbatim>\<open>Car\<close> and \<^verbatim>\<open>User\<close> are missing. A
  collection is the list of its records in insertion order; a filter selects the first
  record that matches it. Every call is written to the trace when it is issued, whether
  it then rejects (\<open>Throws\<close>) or not.
\<close>

definition issue :: "event \<Rightarrow> world \<Rightarrow> world" where
  "issue ev w = w\<lparr>trace := trace w @ [ev]\<rparr>"

definition owned :: "oid \<Rightarrow> oid \<Rightarrow> car \<Rightarrow> bool" where
  "owned i u c = (car_id c = i \<and> user c = u)"

fun update_first :: "('a \<Rightarrow> bool) \<Rightarrow> ('a \<Rightarrow> 'a) \<Rightarrow> 'a list \<Rightarrow> 'a list" where
  "update_first P f [] = []"
| "update_first P f (x # xs) = (if P x then f x # xs else x # update_first P f xs)"

fun remove_first :: "('a \<Rightarrow> bool) \<Rightarrow> 'a list \<Rightarrow> 'a list" where
  "remove_first P [] = []"
| "remove_first P (x # xs) = (if P x then xs else x # remove_first P xs)"

definition User_findById :: "env \<Rightarrow> world \<Rightarrow> oid \<Rightarrow> user_doc option outcome \<times> world" where
  "User_findById env w i =
     (let ev = UserFindById i in
      if fails env ev then (Throws, issue ev w)
      else (Returns (find (\<lambda>u. user_id u = i) (users w)), issue ev w))"

definition Car_findOne :: "env \<Rightarrow> world \<Rightarrow> oid \<Rightarrow> oid \<Rightarrow> car option outcome \<times> world" where
  "Car_findOne env w i u =
     (let ev = CarFindOne i u in
      if fails env ev then (Throws, issue ev w)
      else (Returns (find (owned i u) (cars w)), issue ev w))"

definition Car_find :: "env \<Rightarrow> world \<Rightarrow> oid \<Rightarrow> car list outcome \<times> world" where
  "Car_find env w u =
     (let ev = CarFind u in
      if fails env ev then (Throws, issue ev w)
      else (Returns (filter (\<lambda>c. user c = u) (cars w)), issue ev w))"

definition Car_save :: "env \<Rightarrow> world \<Rightarrow> car \<Rightarrow> car outcome \<times> world" where
  "Car_save env w c =
     (let ev = CarSave c in
      if fails env ev then (Throws, issue ev w)
      else (Returns c, issue ev (w\<lparr>cars := cars w @ [c]\<rparr>)))"

text \<open>
  Modelled from the spec: the image schema is missing. \<open>images\<close> is an ordered sequence of
  URLs, so an array of strings is stored as it is; the cast of any other value is the
  environment's (\<open>None\<close>: a cast error).
\<close>

fun strings_of :: "json list \<Rightarrow> jsstring list option" where
  "strings_of [] = Some []"
| "strings_of (JStr s # vs) =
     (case strings_of vs of None \<Rightarrow> None | Some ss \<Rightarrow> Some (s # ss))"
| "strings_of (v # vs) = None"

definition cast_images :: "env \<Rightarrow> json \<Rightarrow> jsstring list option" where
  "cast_images env v =
     (case v of
        JArr vs \<Rightarrow>
          (case strings_of vs of
             Some ss \<Rightarrow> Some ss
           | None \<Rightarrow> schema_cast env v)
      | _ \<Rightarrow> schema_cast env v)"

text \<open>
  \<^verbatim>\<open>findOneAndUpdate(filter, update, {new})\<close>: the first record matching the filter gets
  the four fields of the update document in one step; the result is the record after the
  update when \<open>new\<close> is set, before it otherwise, and null when nothing matches.
\<close>

definition apply_update :: "update_data \<Rightarrow> jsstring list \<Rightarrow> car \<Rightarrow> car" where
  "apply_update ud imgs c =
     c\<lparr>title := ud_title ud, description := ud_description ud,
       tags := ud_tags ud, images := imgs\<rparr>"

definition Car_findOneAndUpdate ::
  "env \<Rightarrow> world \<Rightarrow> oid \<Rightarrow> oid \<Rightarrow> update_data \<Rightarrow> bool \<Rightarrow> car option outcome \<times> world" where
  "Car_findOneAndUpdate env w i u ud new =
     (let ev = CarFindOneAndUpdate i u ud; w' = issue ev w in
      if fails env ev then (Throws, w')
      else
        (case cast_images env (ud_images ud) of
           None \<Rightarrow> (Throws, w')
         | Some imgs \<Rightarrow>
             (case find (owned i u) (cars w) of
                None \<Rightarrow> (Returns None, w')
              | Some c \<Rightarrow>
                  (let c' = apply_update ud imgs c
                   in (Returns (Some (if new then c' else c)),
                       w'\<lparr>cars := update_first (owned i u) (\<lambda>_. c') (cars w)\<rparr>)))))"

definition Car_findOneAndDelete ::
  "env \<Rightarrow> world \<Rightarrow> oid \<Rightarrow> oid \<Rightarrow> car option outcome \<times> world" where
  "Car_findOneAndDelete env w i u =
     (let ev = CarFindOneAndDelete i u; w' = issue ev w in
      if fails env ev then (Throws, w')
      else (Returns (find (owned i u) (cars w)),
            w'\<lparr>cars := remove_first (owned i u) (cars w)\<rparr>))"

section \<open>The authentication middleware\<close>

definition reply :: "nat \<Rightarrow> payload \<Rightarrow> response" where
  "reply code p = \<lparr>status = code, payload = p\<rparr>"

text \<open>
  \<^verbatim>\<open>authMiddleware(req, res, next)\<close>. The token is the header with the first
  \<^verbatim>\<open>'Bearer '\<close> removed; an undefined or empty token is refused at once. Whatever is
  thrown in the \<^verbatim>\<open>try\<close> block, by \<^verbatim>\<open>jwt.verify\<close> or by the user lookup, answers
  \<^verbatim>\<open>Invalid token\<close>. \<open>next\<close> is the rest of the route.
\<close>

definition authMiddleware ::
  "env \<Rightarrow> world \<Rightarrow> request \<Rightarrow> (request \<Rightarrow> world \<Rightarrow> response \<times> world) \<Rightarrow> response \<times> world" where
  "authMiddleware env w req next =
     (case map_option (replace_first (U ''Bearer '') []) (authorization req) of
        None \<Rightarrow> (reply 401 (ErrorBody (U ''Authorization required'')), w)
      | Some token \<Rightarrow>
          if token = [] then (reply 401 (ErrorBody (U ''Authorization required'')), w)
          else
            (case jwt_verify env token of
               None \<Rightarrow> (reply 401 (ErrorBody (U ''Invalid token'')), w)
             | Some decoded_id \<Rightarrow>
                 (case User_findById env w decoded_id of
                    (Throws, w') \<Rightarrow> (reply 401 (ErrorBody (U ''Invalid token'')), w')
                  | (Returns None, w') \<Rightarrow> (reply 401 (ErrorBody (U ''User not found'')), w')
                  | (Returns (Some u), w') \<Rightarrow> next (req\<lparr>req_user := Some u\<rparr>) w')))"

section \<open>The car routes\<close>

text \<open>\<^verbatim>\<open>POST /\<close>: create a car with the uploaded images.\<close>

definition new_Car :: "env \<Rightarrow> world \<Rightarrow> body \<Rightarrow> jsstring list \<Rightarrow> oid \<Rightarrow> car" where
  "new_Car env w b imgs uid =
     \<lparr>car_id = ObjectId env (cars w),
      title = body_title b, description = body_description b, tags = body_tags b,
      images = imgs, user = uid\<rparr>"

definition post_handler :: "env \<Rightarrow> world \<Rightarrow> request \<Rightarrow> response \<times> world" where
  "post_handler env w req =
     (let imgs = (case files req of Some fs \<Rightarrow> map path fs | None \<Rightarrow> []) in
      case req_user req of
        None \<Rightarrow> (reply 500 (ErrorBody (U ''Error creating car'')), w)
      | Some usr \<Rightarrow>
          (let newCar = new_Car env w (body req) imgs (user_id usr)
           in case Car_save env w newCar of
                (Throws, w') \<Rightarrow> (reply 500 (ErrorBody (U ''Error creating car'')), w')
              | (Returns saved, w') \<Rightarrow> (reply 201 (CarBody (Some saved)), w')))"

text \<open>\<^verbatim>\<open>existingImages || "[]"\<close>: an undefined or empty string gives the default.\<close>

definition existing_or_default :: "jsstring option \<Rightarrow> jsstring" where
  "existing_or_default e =
     (case e of
        None \<Rightarrow> U ''[]''
      | Some s \<Rightarrow> if s = [] then U ''[]'' else s)"

text \<open>
  \<^verbatim>\<open>[...v, ...urls]\<close>: an array gives its elements, a string its code points; any other
  parsed value is not iterable (a TypeError, \<open>None\<close>).
\<close>

definition spread :: "json \<Rightarrow> json list option" where
  "spread v =
     (case v of
        JArr vs \<Rightarrow> Some vs
      | JStr s \<Rightarrow> Some (map JStr (code_points s))
      | _ \<Rightarrow> None)"

text \<open>
  \<^verbatim>\<open>if (req.files && req.files.length > 0) images = [...images, ...newImageUrls]\<close>:
  without new files the parsed value is passed on untouched.
\<close>

definition add_new_images :: "json \<Rightarrow> uploaded_file list option \<Rightarrow> json option" where
  "add_new_images parsed fls =
     (case fls of
        None \<Rightarrow> Some parsed
      | Some fs \<Rightarrow>
          if length fs > 0 then
            (case spread parsed of
               None \<Rightarrow> None
             | Some vs \<Rightarrow> Some (JArr (vs @ map (JStr \<circ> path) fs)))
          else Some parsed)"

text \<open>\<^verbatim>\<open>{ title, description, tags }\<close> of the body, with the \<open>images\<close> computed for it.\<close>

definition updateData :: "body \<Rightarrow> json \<Rightarrow> update_data" where
  "updateData b imgs =
     \<lparr>ud_title = body_title b, ud_description = body_description b,
      ud_tags = body_tags b, ud_images = imgs\<rparr>"

text \<open>\<^verbatim>\<open>PUT /:id\<close>: replace the fields of an owned car, keeping the listed images.\<close>

definition put_handler :: "env \<Rightarrow> world \<Rightarrow> request \<Rightarrow> response \<times> world" where
  "put_handler env w req =
     (let failed = reply 500 (ErrorBody (U ''Error updating car'')) in
      case req_user req of
        None \<Rightarrow> (failed, w)
      | Some usr \<Rightarrow>
          (case Car_findOne env w (params_id req) (user_id usr) of
             (Throws, w1) \<Rightarrow> (failed, w1)
           | (Returns None, w1) \<Rightarrow> (reply 404 (ErrorBody (U ''Car not found'')), w1)
           | (Returns (Some existingCar), w1) \<Rightarrow>
               (case JSON_parse (existing_or_default (existingImages (body req))) of
                  None \<Rightarrow> (failed, w1)
                | Some parsed \<Rightarrow>
                    (case add_new_images parsed (files req) of
                       None \<Rightarrow> (failed, w1)
                     | Some imgs \<Rightarrow>
                         (case Car_findOneAndUpdate env w1 (params_id req) (user_id usr)
                                 (updateData (body req) imgs) True of
                            (Throws, w2) \<Rightarrow> (failed, w2)
                          | (Returns updatedCar, w2) \<Rightarrow>
                              (reply 200 (CarBody updatedCar), w2))))))"

text \<open>
  The remote identifier of an image: \<^verbatim>\<open>imageUrl.split('/').pop().split('.')[0]\<close>,
  and the loop that destroys \<^verbatim>\<open>cars/<publicId>\<close> for each image in turn. The loop
  returns \<open>False\<close> when a call threw; the rest of the list is then left alone.
\<close>

definition publicId_of :: "jsstring \<Rightarrow> jsstring option" where
  "publicId_of imageUrl =
     (case pop (split_on 0x2F imageUrl) of
        None \<Rightarrow> None
      | Some seg \<Rightarrow> first_elem (split_on 0x2E seg))"

fun destroy_images :: "env \<Rightarrow> world \<Rightarrow> jsstring list \<Rightarrow> bool \<times> world" where
  "destroy_images env w [] = (True, w)"
| "destroy_images env w (imageUrl # rest) =
     (case publicId_of imageUrl of
        None \<Rightarrow> (False, w)
      | Some publicId \<Rightarrow>
          (let ev = CloudDestroy (U ''cars/'' @ publicId) in
           if fails env ev then (False, issue ev w)
           else destroy_images env (issue ev w) rest))"

text \<open>\<^verbatim>\<open>DELETE /:id\<close>: destroy the images of an owned car, then delete the car.\<close>

definition delete_handler :: "env \<Rightarrow> world \<Rightarrow> request \<Rightarrow> response \<times> world" where
  "delete_handler env w req =
     (let failed = reply 500 (ErrorBody (U ''Error deleting car'')) in
      case req_user req of
        None \<Rightarrow> (failed, w)
      | Some usr \<Rightarrow>
          (case Car_findOne env w (params_id req) (user_id usr) of
             (Throws, w1) \<Rightarrow> (failed, w1)
           | (Returns None, w1) \<Rightarrow> (reply 404 (ErrorBody (U ''Car not found'')), w1)
           | (Returns (Some c), w1) \<Rightarrow>
               (case destroy_images env w1 (images c) of
                  (False, w2) \<Rightarrow> (failed, w2)
                | (True, w2) \<Rightarrow>
                    (case Car_findOneAndDelete env w2 (params_id req) (user_id usr) of
                       (Throws, w3) \<Rightarrow> (failed, w3)
                     | (Returns _, w3) \<Rightarrow>
                         (reply 200 (MessageBody (U ''Car deleted successfully'')), w3)))))"

text \<open>\<^verbatim>\<open>GET /\<close> and \<^verbatim>\<open>GET /:id\<close>: the caller's cars, and one of them.\<close>

definition get_all_handler :: "env \<Rightarrow> world \<Rightarrow> request \<Rightarrow> response \<times> world" where
  "get_all_handler env w req =
     (let failed = reply 500 (ErrorBody (U ''Error fetching cars'')) in
      case req_user req of
        None \<Rightarrow> (failed, w)
      | Some usr \<Rightarrow>
          (case Car_find env w (user_id usr) of
             (Throws, w1) \<Rightarrow> (failed, w1)
           | (Returns cs, w1) \<Rightarrow> (reply 200 (CarsBody cs), w1)))"

definition get_handler :: "env \<Rightarrow> world \<Rightarrow> request \<Rightarrow> response \<times> world" where
  "get_handler env w req =
     (let failed = reply 500 (ErrorBody (U ''Error fetching car'')) in
      case req_user req of
        None \<Rightarrow> (failed, w)
      | Some usr \<Rightarrow>
          (case Car_findOne env w (params_id req) (user_id usr) of
             (Throws, w1) \<Rightarrow> (failed, w1)
           | (Returns None, w1) \<Rightarrow> (reply 404 (ErrorBody (U ''Car not found'')), w1)
           | (Returns (Some c), w1) \<Rightarrow> (reply 200 (CarBody (Some c)), w1)))"

text \<open>The five endpoints mounted under \<^verbatim>\<open>/api/cars\<close>, each behind the middleware.\<close>

datatype endpoint = POST_cars | PUT_car | DELETE_car | GET_cars | GET_car

fun handler_of :: "endpoint \<Rightarrow> env \<Rightarrow> world \<Rightarrow> request \<Rightarrow> response \<times> world" where
  "handler_of POST_cars = post_handler"
| "handler_of PUT_car = put_handler"
| "handler_of DELETE_car = delete_handler"
| "handler_of GET_cars = get_all_handler"
| "handler_of GET_car = get_handler"

definition cars_router :: "env \<Rightarrow> world \<Rightarrow> endpoint \<Rightarrow> request \<Rightarrow> response \<times> world" where
  "cars_router env w ep req = authMiddleware env w req (\<lambda>r w'. handler_of ep env w' r)"

section \<open>Notions used by the properties\<close>

text \<open>The URLs of the files uploaded with a request, in submission order.\<close>

definition new_urls :: "request \<Rightarrow> jsstring list" where
  "new_urls req = (case files req of None \<Rightarrow> [] | Some fs \<Rightarrow> map path fs)"

text \<open>The last path segment of a URL, and that segment up to its first full stop.\<close>

definition final_segment :: "jsstring \<Rightarrow> jsstring" where
  "final_segment url = rev (takeWhile (\<lambda>c. c \<noteq> 0x2F) (rev url))"

definition destroy_target :: "jsstring \<Rightarrow> jsstring" where
  "destroy_target url = U ''cars/'' @ takeWhile (\<lambda>c. c \<noteq> 0x2E) (final_segment url)"

subsection \<open>A small installation, for concrete runs\<close>

definition ex_env :: env where
  "ex_env = \<lparr>jwt_verify = (\<lambda>t. if t = U ''tokenA'' then Some (U ''userA'')
                              else if t = U ''tokenB'' then Some (U ''userB'')
                              else if t = U ''tokenZ'' then Some (U ''userZ'')
                              else None),
             fails = (\<lambda>ev. False),
             schema_cast = (\<lambda>v. None),
             ObjectId = (\<lambda>cs. U ''car'' @ replicate (Suc (length cs)) 0x31)\<rparr>"

definition ex_car :: car where
  "ex_car = \<lparr>car_id = U ''car1'', title = U ''Tesla Model X'',
             description = U ''Fully electric luxury SUV'',
             tags = [U ''electric'', U ''luxury''],
             images = [U ''https://img.example/v1/cars/urlA.jpg'',
                       U ''https://img.example/v1/cars/urlC.png''],
             user = U ''userA''\<rparr>"

definition ex_world :: world where
  "ex_world = \<lparr>cars = [ex_car],
               users = [\<lparr>user_id = U ''userA''\<rparr>, \<lparr>user_id = U ''userB''\<rparr>],
               trace = []\<rparr>"

definition ex_body :: body where
  "ex_body = \<lparr>body_title = U ''Model Y'', body_description = U ''Compact'',
              body_tags = [U ''electric''], existingImages = None\<rparr>"

text \<open>User A's request on car1, as the handlers receive it after authentication.\<close>

definition ex_request :: request where
  "ex_request = \<lparr>authorization = Some (U ''Bearer tokenA''), params_id = U ''car1'',
                  body = ex_body, files = None, req_user = Some \<lparr>user_id = U ''userA''\<rparr>\<rparr>"

text \<open>The JSON text \<^verbatim>\<open>["https://img.example/v1/cars/urlA.jpg"]\<close>.\<close>

definition ex_retained :: jsstring where
  "ex_retained = U ''['' @ 0x22 # U ''https://img.example/v1/cars/urlA.jpg'' @ 0x22 # U '']''"

text \<open>The scenario of the update: keep image A, add file B (image C is dropped).\<close>

definition ex_put :: request where
  "ex_put = ex_request\<lparr>body := ex_body\<lparr>existingImages := Some ex_retained\<rparr>,
                       files := Some [\<lparr>path = U ''https://img.example/v1/cars/urlB.jpg''\<rparr>]\<rparr>"

text \<open>Updates of car1 by its owner: no \<open>existingImages\<close>, an empty one, one that is not JSON.\<close>

definition ex_put_empty :: request where
  "ex_put_empty = ex_request\<lparr>body := ex_body\<lparr>existingImages := Some []\<rparr>\<rparr>"

definition ex_put_malformed :: request where
  "ex_put_malformed = ex_request\<lparr>body := ex_body\<lparr>existingImages := Some (U ''[urlA'')\<rparr>\<rparr>"

text \<open>
  Updates of car1 whose \<open>existingImages\<close> is well-formed JSON but no list: the string
  \<^verbatim>\<open>"ab"\<close> with a new file, and the number \<^verbatim>\<open>5\<close> without and with a new file.
\<close>

definition ex_put_string :: request where
  "ex_put_string = ex_request\<lparr>body := ex_body\<lparr>existingImages := Some (0x22 # U ''ab'' @ [0x22])\<rparr>,
                              files := Some [\<lparr>path = U ''https://img.example/v1/cars/urlB.jpg''\<rparr>]\<rparr>"

definition ex_put_number :: request where
  "ex_put_number = ex_request\<lparr>body := ex_body\<lparr>existingImages := Some (U ''5'')\<rparr>\<rparr>"

definition ex_put_number_file :: request where
  "ex_put_number_file =
     ex_put_number\<lparr>files := Some [\<lparr>path = U ''https://img.example/v1/cars/urlB.jpg''\<rparr>]\<rparr>"

text \<open>The same malformed update sent by user B, who does not own car1.\<close>

definition ex_put_foreign :: request where
  "ex_put_foreign = ex_put_malformed\<lparr>authorization := Some (U ''Bearer tokenB''),
                                     req_user := Some \<lparr>user_id = U ''userB''\<rparr>\<rparr>"

text \<open>
  Requests as they arrive, before authentication: user A creating a car with two
  images, and the same request with no header, with a token that does not verify, and
  with the token of a user who is gone.
\<close>

definition ex_post :: request where
  "ex_post = \<lparr>authorization = Some (U ''Bearer tokenA''), params_id = [],
               body = \<lparr>body_title = U ''Tesla Model X'',
                       body_description = U ''Fully electric luxury SUV'',
                       body_tags = [U ''electric'', U ''luxury''], existingImages = None\<rparr>,
               files = Some [\<lparr>path = U ''https://img.example/v1/cars/one.jpg''\<rparr>,
                             \<lparr>path = U ''https://img.example/v1/cars/two.jpg''\<rparr>],
               req_user = None\<rparr>"

definition ex_no_header :: request where
  "ex_no_header = ex_post\<lparr>authorization := None\<rparr>"

definition ex_bad_token :: request where
  "ex_bad_token = ex_post\<lparr>authorization := Some (U ''Bearer forged'')\<rparr>"

definition ex_stale_token :: request where
  "ex_stale_token = ex_post\<lparr>authorization := Some (U ''Bearer tokenZ'')\<rparr>"

text \<open>User B asking for car1, which belongs to user A, and a world without car1.\<close>

definition ex_foreign :: request where
  "ex_foreign = ex_request\<lparr>authorization := Some (U ''Bearer tokenB''),
                           req_user := Some \<lparr>user_id = U ''userB''\<rparr>\<rparr>"

definition ex_world_empty :: world where
  "ex_world_empty = ex_world\<lparr>cars := []\<rparr>"

text \<open>
  Deleting car1 when the remote store rejects the second of its two images, and a car
  whose image name has a full stop in it.
\<close>

definition ex_env_failing :: env where
  "ex_env_failing = ex_env\<lparr>fails := (\<lambda>ev. case ev of
                                           CloudDestroy t \<Rightarrow> t = U ''cars/urlC''
                                         | _ \<Rightarrow> False)\<rparr>"

definition ex_world_dotted :: world where
  "ex_world_dotted =
     ex_world\<lparr>cars := [ex_car\<lparr>images := [U ''https://img.example/v1/cars/front.view.jpg'']\<rparr>]\<rparr>"

section \<open>Basic facts\<close>

lemma cars_issue [simp]: "cars (issue ev w) = cars w"
  by (simp add: issue_def)

lemma users_issue [simp]: "users (issue ev w) = users w"
  by (simp add: issue_def)

lemma trace_issue [simp]: "trace (issue ev w) = trace w @ [ev]"
  by (simp add: issue_def)

lemma status_reply [simp]: "status (reply code p) = code"
  by (simp add: reply_def)

lemma payload_reply [simp]: "payload (reply code p) = p"
  by (simp add: reply_def)

lemma find_Some_holds: "find P xs = Some c \<Longrightarrow> P c"
  by (induction xs) (auto split: if_splits)

lemma find_Some_mem: "find P xs = Some c \<Longrightarrow> c \<in> set xs"
  by (induction xs) (auto split: if_splits)

lemma find_update_first:
  "find P xs = Some c \<Longrightarrow> P c' \<Longrightarrow> find P (update_first P (\<lambda>_. c') xs) = Some c'"
  by (induction xs) (auto split: if_splits)

lemma owned_apply_update [simp]: "owned i u (apply_update ud imgs c) = owned i u c"
  by (simp add: owned_def apply_update_def)

lemma Car_findOne_ok:
  "\<not> fails env (CarFindOne i u) \<Longrightarrow>
   Car_findOne env w i u = (Returns (find (owned i u) (cars w)), issue (CarFindOne i u) w)"
  by (simp add: Car_findOne_def)

lemma Car_findOne_throws:
  "fails env (CarFindOne i u) \<Longrightarrow>
   Car_findOne env w i u = (Throws, issue (CarFindOne i u) w)"
  by (simp add: Car_findOne_def)

subsection \<open>Parsing and reconciling the image list\<close>

lemma JSON_parse_empty_text: "JSON_parse [] = None"
  by (simp add: JSON_parse_def)

lemma JSON_parse_empty_array: "JSON_parse (U ''[]'') = Some (JArr [])"
  by (simp add: JSON_parse_def U_def is_ws_def cons_token_def wants_value_def complete_def)

lemma strings_of_map_JStr: "strings_of (map JStr ss) = Some ss"
  by (induction ss) auto

lemma cast_images_strings: "cast_images env (JArr (map JStr ss)) = Some ss"
  by (simp add: cast_images_def strings_of_map_JStr)

lemma add_new_images_strings:
  "add_new_images (JArr (map JStr retained)) (files req) =
   Some (JArr (map JStr (retained @ new_urls req)))"
  by (auto simp: add_new_images_def new_urls_def spread_def split: option.splits)

lemma Car_findOneAndUpdate_ok:
  assumes "\<not> fails env (CarFindOneAndUpdate i u ud)"
    and "cast_images env (ud_images ud) = Some imgs"
    and "find (owned i u) (cars w) = Some c"
  shows "Car_findOneAndUpdate env w i u ud new =
     (Returns (Some (if new then apply_update ud imgs c else c)),
      (issue (CarFindOneAndUpdate i u ud) w)
        \<lparr>cars := update_first (owned i u) (\<lambda>_. apply_update ud imgs c) (cars w)\<rparr>)"
  using assms by (simp add: Car_findOneAndUpdate_def Let_def)

lemma put_handler_at_update:
  assumes "req_user req = Some usr"
    and "\<not> fails env (CarFindOne (params_id req) (user_id usr))"
    and "find (owned (params_id req) (user_id usr)) (cars w) = Some c"
    and "JSON_parse (existing_or_default (existingImages (body req))) = Some v"
    and "add_new_images v (files req) = Some v'"
  shows "put_handler env w req =
     (case Car_findOneAndUpdate env (issue (CarFindOne (params_id req) (user_id usr)) w)
            (params_id req) (user_id usr) (updateData (body req) v') True of
        (Throws, w2) \<Rightarrow> (reply 500 (ErrorBody (U ''Error updating car'')), w2)
      | (Returns updatedCar, w2) \<Rightarrow> (reply 200 (CarBody updatedCar), w2))"
  using assms by (simp add: put_handler_def Car_findOne_ok)

lemma put_handler_retained:
  assumes usr: "req_user req = Some usr"
    and ok1: "\<not> fails env (CarFindOne (params_id req) (user_id usr))"
    and found: "find (owned (params_id req) (user_id usr)) (cars w) = Some c"
    and parsed: "JSON_parse (existing_or_default (existingImages (body req))) =
                 Some (JArr (map JStr retained))"
    and ok2: "\<not> fails env (CarFindOneAndUpdate (params_id req) (user_id usr)
                (updateData (body req) (JArr (map JStr (retained @ new_urls req)))))"
  shows "put_handler env w req =
     (reply 200 (CarBody (Some (apply_update
         (updateData (body req) (JArr (map JStr (retained @ new_urls req))))
         (retained @ new_urls req) c))),
      w\<lparr>cars := update_first (owned (params_id req) (user_id usr))
           (\<lambda>_. apply_update
              (updateData (body req) (JArr (map JStr (retained @ new_urls req))))
              (retained @ new_urls req) c) (cars w),
        trace := trace w @ [CarFindOne (params_id req) (user_id usr),
           CarFindOneAndUpdate (params_id req) (user_id usr)
             (updateData (body req) (JArr (map JStr (retained @ new_urls req))))]\<rparr>)"
proof -
  let ?v = "JArr (map JStr (retained @ new_urls req))"
  let ?w1 = "issue (CarFindOne (params_id req) (user_id usr)) w"
  have f: "find (owned (params_id req) (user_id usr)) (cars ?w1) = Some c"
    using found by simp
  have c: "cast_images env (ud_images (updateData (body req) ?v)) = Some (retained @ new_urls req)"
    by (simp add: updateData_def cast_images_strings del: map_append)
  show ?thesis
    unfolding put_handler_at_update[OF usr ok1 found parsed add_new_images_strings]
      Car_findOneAndUpdate_ok[OF ok2 c f]
    by (simp add: issue_def)
qed

section \<open>Update\<close>

text \<open>
  C1. An update of an owned, existing record whose \<open>existingImages\<close> parses to the
  list \<open>retained\<close> answers 200 with the stored record, and that record's images are
  \<open>retained\<close> followed by the URLs of the new files, in that order. A URL the record
  had before, which is neither retained nor the URL of a new file, is gone. The store
  calls are taken to succeed.
\<close>

theorem update_images_are_retained_then_new:
  assumes "req_user req = Some usr"
    and "\<not> fails env (CarFindOne (params_id req) (user_id usr))"
    and "find (owned (params_id req) (user_id usr)) (cars w) = Some c"
    and "JSON_parse (existing_or_default (existingImages (body req))) =
         Some (JArr (map JStr retained))"
    and "\<not> fails env (CarFindOneAndUpdate (params_id req) (user_id usr)
           (updateData (body req) (JArr (map JStr (retained @ new_urls req)))))"
  shows "\<exists>c'. fst (put_handler env w req) = reply 200 (CarBody (Some c')) \<and>
           find (owned (params_id req) (user_id usr)) (cars (snd (put_handler env w req)))
             = Some c' \<and>
           images c' = retained @ new_urls req \<and>
           (\<forall>url \<in> set (images c).
              url \<notin> set retained \<longrightarrow> url \<notin> set (new_urls req) \<longrightarrow> url \<notin> set (images c'))"
proof -
  let ?c' = "apply_update (updateData (body req) (JArr (map JStr (retained @ new_urls req))))
               (retained @ new_urls req) c"
  have o: "owned (params_id req) (user_id usr) ?c'"
    using find_Some_holds[OF assms(3)] by simp
  have i: "images ?c' = retained @ new_urls req"
    by (simp add: apply_update_def)
  have "fst (put_handler env w req) = reply 200 (CarBody (Some ?c'))"
    by (simp add: put_handler_retained[OF assms])
  moreover have "find (owned (params_id req) (user_id usr)) (cars (snd (put_handler env w req)))
      = Some ?c'"
    by (simp add: put_handler_retained[OF assms] find_update_first[OF assms(3) o]
          del: map_append)
  ultimately show ?thesis
    using i by auto
qed

theorem update_images_witness:
  "req_user ex_put = Some \<lparr>user_id = U ''userA''\<rparr> \<and>
   find (owned (params_id ex_put) (U ''userA'')) (cars ex_world) = Some ex_car \<and>
   JSON_parse (existing_or_default (existingImages (body ex_put))) =
     Some (JArr (map JStr [U ''https://img.example/v1/cars/urlA.jpg''])) \<and>
   (\<exists>c'. fst (put_handler ex_env ex_world ex_put) = reply 200 (CarBody (Some c')) \<and>
      images c' = [U ''https://img.example/v1/cars/urlA.jpg'',
                   U ''https://img.example/v1/cars/urlB.jpg''] \<and>
      U ''https://img.example/v1/cars/urlC.png'' \<in> set (images ex_car) \<and>
      U ''https://img.example/v1/cars/urlC.png'' \<notin> set (images c'))"
proof -
  let ?usr = "\<lparr>user_id = U ''userA''\<rparr>"
  let ?ret = "[U ''https://img.example/v1/cars/urlA.jpg'']"
  have h1: "req_user ex_put = Some ?usr" by code_simp
  have h2: "\<not> fails ex_env (CarFindOne (params_id ex_put) (user_id ?usr))"
    by (simp add: ex_env_def)
  have h3: "find (owned (params_id ex_put) (user_id ?usr)) (cars ex_world) = Some ex_car"
    by code_simp
  have h4: "JSON_parse (existing_or_default (existingImages (body ex_put))) =
     Some (JArr (map JStr ?ret))" by code_simp
  have h5: "\<not> fails ex_env (CarFindOneAndUpdate (params_id ex_put) (user_id ?usr)
           (updateData (body ex_put) (JArr (map JStr (?ret @ new_urls ex_put)))))"
    by (simp add: ex_env_def)
  have n: "new_urls ex_put = [U ''https://img.example/v1/cars/urlB.jpg'']" by code_simp
  have m: "U ''https://img.example/v1/cars/urlC.png'' \<in> set (images ex_car)" by code_simp
  have m1: "U ''https://img.example/v1/cars/urlC.png'' \<notin> set ?ret" by code_simp
  have m2: "U ''https://img.example/v1/cars/urlC.png'' \<notin> set (new_urls ex_put)" by code_simp
  from update_images_are_retained_then_new[OF h1 h2 h3 h4 h5] obtain c' where
    c': "fst (put_handler ex_env ex_world ex_put) = reply 200 (CarBody (Some c'))"
      "images c' = ?ret @ new_urls ex_put"
      "\<forall>url \<in> set (images ex_car).
              url \<notin> set ?ret \<longrightarrow> url \<notin> set (new_urls ex_put) \<longrightarrow> url \<notin> set (images c')"
    by blast
  from c'(3) m m1 m2 have "U ''https://img.example/v1/cars/urlC.png'' \<notin> set (images c')"
    by blast
  with c'(1,2) n m h1 h3 h4 show ?thesis by auto
qed

lemma put_handler_200:
  assumes "status (fst (put_handler env w req)) = 200"
  obtains usr c p v imgs where
    "req_user req = Some usr"
    "\<not> fails env (CarFindOne (params_id req) (user_id usr))"
    "find (owned (params_id req) (user_id usr)) (cars w) = Some c"
    "JSON_parse (existing_or_default (existingImages (body req))) = Some p"
    "add_new_images p (files req) = Some v"
    "\<not> fails env (CarFindOneAndUpdate (params_id req) (user_id usr) (updateData (body req) v))"
    "cast_images env v = Some imgs"
proof -
  from assms obtain usr where usr: "req_user req = Some usr"
    by (cases "req_user req") (simp_all add: put_handler_def)
  let ?i = "params_id req" and ?u = "user_id usr"
  have ok1: "\<not> fails env (CarFindOne ?i ?u)"
    using assms usr by (auto simp: put_handler_def Car_findOne_throws)
  from assms usr ok1 obtain c where c: "find (owned ?i ?u) (cars w) = Some c"
    by (cases "find (owned ?i ?u) (cars w)") (simp_all add: put_handler_def Car_findOne_ok)
  from assms usr ok1 c obtain p where
    p: "JSON_parse (existing_or_default (existingImages (body req))) = Some p"
    by (cases "JSON_parse (existing_or_default (existingImages (body req)))")
       (simp_all add: put_handler_def Car_findOne_ok)
  from assms usr ok1 c p obtain v where v: "add_new_images p (files req) = Some v"
    by (cases "add_new_images p (files req)") (simp_all add: put_handler_def Car_findOne_ok)
  note at = put_handler_at_update[OF usr ok1 c p v]
  have ok2: "\<not> fails env (CarFindOneAndUpdate ?i ?u (updateData (body req) v))"
    using assms unfolding at by (auto simp: Car_findOneAndUpdate_def Let_def)
  from assms ok2 obtain imgs where "cast_images env v = Some imgs"
    unfolding at
    by (cases "cast_images env v") (simp_all add: Car_findOneAndUpdate_def Let_def updateData_def)
  with usr ok1 c p v ok2 show ?thesis
    using that by blast
qed

text \<open>
  C9. Without an \<open>existingImages\<close> field the retained list is empty, not an error: the
  update of an owned, existing record answers 200 and the record's images are exactly the
  URLs of the new files; with no files either, the record is left with no images.
\<close>

theorem update_without_existingImages:
  assumes "req_user req = Some usr"
    and "\<not> fails env (CarFindOne (params_id req) (user_id usr))"
    and "find (owned (params_id req) (user_id usr)) (cars w) = Some c"
    and "existingImages (body req) = None"
    and "\<not> fails env (CarFindOneAndUpdate (params_id req) (user_id usr)
           (updateData (body req) (JArr (map JStr (new_urls req)))))"
  shows "\<exists>c'. fst (put_handler env w req) = reply 200 (CarBody (Some c')) \<and>
           find (owned (params_id req) (user_id usr)) (cars (snd (put_handler env w req)))
             = Some c' \<and>
           images c' = new_urls req \<and>
           (files req = None \<or> files req = Some [] \<longrightarrow> images c' = [])"
proof -
  let ?c' = "apply_update (updateData (body req) (JArr (map JStr ([] @ new_urls req))))
               ([] @ new_urls req) c"
  have parsed: "JSON_parse (existing_or_default (existingImages (body req))) =
      Some (JArr (map JStr []))"
    using assms(4) by (simp add: existing_or_default_def JSON_parse_empty_array)
  have ok2: "\<not> fails env (CarFindOneAndUpdate (params_id req) (user_id usr)
           (updateData (body req) (JArr (map JStr ([] @ new_urls req)))))"
    using assms(5) by simp
  note run = put_handler_retained[OF assms(1,2,3) parsed ok2]
  have o: "owned (params_id req) (user_id usr) ?c'"
    using find_Some_holds[OF assms(3)] by simp
  have "fst (put_handler env w req) = reply 200 (CarBody (Some ?c'))"
    by (simp add: run)
  moreover have
    "find (owned (params_id req) (user_id usr)) (cars (snd (put_handler env w req))) = Some ?c'"
    using find_update_first[OF assms(3) o] by (simp add: run)
  moreover have "images ?c' = new_urls req"
    by (simp add: apply_update_def)
  moreover have "files req = None \<or> files req = Some [] \<Longrightarrow> new_urls req = []"
    by (auto simp: new_urls_def)
  ultimately show ?thesis
    by auto
qed

theorem update_without_existingImages_witness:
  "req_user ex_request = Some \<lparr>user_id = U ''userA''\<rparr> \<and>
   find (owned (params_id ex_request) (U ''userA'')) (cars ex_world) = Some ex_car \<and>
   existingImages (body ex_request) = None \<and> files ex_request = None \<and>
   images ex_car \<noteq> [] \<and>
   (\<exists>c'. fst (put_handler ex_env ex_world ex_request) = reply 200 (CarBody (Some c')) \<and>
      find (owned (params_id ex_request) (U ''userA''))
        (cars (snd (put_handler ex_env ex_world ex_request))) = Some c' \<and>
      images c' = [])"
proof -
  let ?usr = "\<lparr>user_id = U ''userA''\<rparr>"
  have h1: "req_user ex_request = Some ?usr" by code_simp
  have h2: "\<not> fails ex_env (CarFindOne (params_id ex_request) (user_id ?usr))"
    by (simp add: ex_env_def)
  have h3: "find (owned (params_id ex_request) (user_id ?usr)) (cars ex_world) = Some ex_car"
    by code_simp
  have h4: "existingImages (body ex_request) = None" by code_simp
  have h5: "\<not> fails ex_env (CarFindOneAndUpdate (params_id ex_request) (user_id ?usr)
           (updateData (body ex_request) (JArr (map JStr (new_urls ex_request)))))"
    by (simp add: ex_env_def)
  have f: "files ex_request = None" by code_simp
  have i: "images ex_car \<noteq> []" by (simp add: ex_car_def)
  from update_without_existingImages[OF h1 h2 h3 h4 h5] f h1 h3 h4 i
  show ?thesis by auto
qed

lemma JSON_parse_Some_not_empty: "JSON_parse s = Some p \<Longrightarrow> s \<noteq> []"
  by (auto simp: JSON_parse_def)

lemma Car_findOneAndUpdate_cast_fails:
  "cast_images env (ud_images ud) = None \<Longrightarrow>
   Car_findOneAndUpdate env w i u ud new = (Throws, issue (CarFindOneAndUpdate i u ud) w)"
  by (simp add: Car_findOneAndUpdate_def Let_def)

lemma put_handler_cast_fails:
  assumes "req_user req = Some usr"
    and "find (owned (params_id req) (user_id usr)) (cars w) = Some c"
    and "JSON_parse (existing_or_default (existingImages (body req))) = Some p"
    and "add_new_images p (files req) = Some v"
    and "cast_images env v = None"
  shows "fst (put_handler env w req) = reply 500 (ErrorBody (U ''Error updating car'')) \<and>
         cars (snd (put_handler env w req)) = cars w"
proof (cases "fails env (CarFindOne (params_id req) (user_id usr))")
  case True
  with assms(1) show ?thesis
    by (simp add: put_handler_def Car_findOne_throws)
next
  case False
  have c: "cast_images env (ud_images (updateData (body req) v)) = None"
    using assms(5) by (simp add: updateData_def)
  show ?thesis
    unfolding put_handler_at_update[OF assms(1) False assms(2,3,4)]
      Car_findOneAndUpdate_cast_fails[OF c]
    by simp
qed

lemma put_handler_no_images:
  assumes "req_user req = Some usr"
    and "find (owned (params_id req) (user_id usr)) (cars w) = Some c"
    and "JSON_parse (existing_or_default (existingImages (body req))) = None \<or>
         (\<exists>p. JSON_parse (existing_or_default (existingImages (body req))) = Some p \<and>
              add_new_images p (files req) = None)"
  shows "fst (put_handler env w req) = reply 500 (ErrorBody (U ''Error updating car'')) \<and>
         cars (snd (put_handler env w req)) = cars w"
proof (cases "fails env (CarFindOne (params_id req) (user_id usr))")
  case True
  with assms(1) show ?thesis
    by (simp add: put_handler_def Car_findOne_throws)
next
  case False
  with assms show ?thesis
    by (auto simp: put_handler_def Car_findOne_ok)
qed

text \<open>
  C7, as the code has it. On an owned, existing record with an \<open>existingImages\<close> field,
  the update answers 500 with the generic message and leaves the stored records as they
  were in each of these cases: the field is a non-empty string that \<^verbatim>\<open>JSON.parse\<close>
  rejects; it parses to a value that cannot be spread (null, a boolean, a number, an
  object) and new files were uploaded; the image schema rejects the value handed to the
  store (the parsed value itself without new files, the parsed array extended by the
  new URLs with them). An empty \<open>existingImages\<close> is treated exactly like an absent
  one: the two requests have the same answer and the same effect.
\<close>

theorem update_fails_on_unusable_existingImages:
  "(req_user req = Some usr \<and>
    find (owned (params_id req) (user_id usr)) (cars w) = Some c \<and>
    existingImages (body req) = Some s \<and>
    ((s \<noteq> [] \<and> JSON_parse s = None) \<or>
     (\<exists>p fs. JSON_parse s = Some p \<and> files req = Some fs \<and> fs \<noteq> [] \<and>
        (p = JNull \<or> (\<exists>b. p = JBool b) \<or> (\<exists>n. p = JNum n) \<or> (\<exists>ms. p = JObj ms))) \<or>
     (\<exists>p. JSON_parse s = Some p \<and> (files req = None \<or> files req = Some []) \<and>
        cast_images env p = None) \<or>
     (\<exists>vs fs. JSON_parse s = Some (JArr vs) \<and> files req = Some fs \<and> fs \<noteq> [] \<and>
        cast_images env (JArr (vs @ map (\<lambda>f. JStr (path f)) fs)) = None)) \<longrightarrow>
      fst (put_handler env w req) = reply 500 (ErrorBody (U ''Error updating car'')) \<and>
      cars (snd (put_handler env w req)) = cars w) \<and>
   put_handler env w (req\<lparr>body := (body req)\<lparr>existingImages := Some []\<rparr>\<rparr>) =
     put_handler env w (req\<lparr>body := (body req)\<lparr>existingImages := None\<rparr>\<rparr>)"
proof (rule conjI, rule impI)
  assume a: "req_user req = Some usr \<and>
    find (owned (params_id req) (user_id usr)) (cars w) = Some c \<and>
    existingImages (body req) = Some s \<and>
    ((s \<noteq> [] \<and> JSON_parse s = None) \<or>
     (\<exists>p fs. JSON_parse s = Some p \<and> files req = Some fs \<and> fs \<noteq> [] \<and>
        (p = JNull \<or> (\<exists>b. p = JBool b) \<or> (\<exists>n. p = JNum n) \<or> (\<exists>ms. p = JObj ms))) \<or>
     (\<exists>p. JSON_parse s = Some p \<and> (files req = None \<or> files req = Some []) \<and>
        cast_images env p = None) \<or>
     (\<exists>vs fs. JSON_parse s = Some (JArr vs) \<and> files req = Some fs \<and> fs \<noteq> [] \<and>
        cast_images env (JArr (vs @ map (\<lambda>f. JStr (path f)) fs)) = None))"
  then have usr: "req_user req = Some usr"
    and c: "find (owned (params_id req) (user_id usr)) (cars w) = Some c"
    and s: "existingImages (body req) = Some s"
    by blast+
  let ?goal = "fst (put_handler env w req) = reply 500 (ErrorBody (U ''Error updating car'')) \<and>
      cars (snd (put_handler env w req)) = cars w"
  from a consider
      (malformed) "s \<noteq> []" "JSON_parse s = None"
    | (not_iterable) p fs where "JSON_parse s = Some p" "files req = Some fs" "fs \<noteq> []"
        "p = JNull \<or> (\<exists>b. p = JBool b) \<or> (\<exists>n. p = JNum n) \<or> (\<exists>ms. p = JObj ms)"
    | (cast_plain) p where "JSON_parse s = Some p" "files req = None \<or> files req = Some []"
        "cast_images env p = None"
    | (cast_added) vs fs where "JSON_parse s = Some (JArr vs)" "files req = Some fs" "fs \<noteq> []"
        "cast_images env (JArr (vs @ map (\<lambda>f. JStr (path f)) fs)) = None"
    by (elim conjE disjE exE; blast)
  then show ?goal
  proof cases
    case malformed
    then have "JSON_parse (existing_or_default (existingImages (body req))) = None"
      using s by (simp add: existing_or_default_def)
    then show ?thesis
      using put_handler_no_images[OF usr c] by blast
  next
    case not_iterable
    have e: "JSON_parse (existing_or_default (existingImages (body req))) = Some p"
      using s not_iterable(1) JSON_parse_Some_not_empty[OF not_iterable(1)]
      by (simp add: existing_or_default_def)
    have "add_new_images p (files req) = None"
      using not_iterable(2,3,4) by (auto simp: add_new_images_def spread_def)
    with e show ?thesis
      using put_handler_no_images[OF usr c] by blast
  next
    case cast_plain
    have e: "JSON_parse (existing_or_default (existingImages (body req))) = Some p"
      using s cast_plain(1) JSON_parse_Some_not_empty[OF cast_plain(1)]
      by (simp add: existing_or_default_def)
    have "add_new_images p (files req) = Some p"
      using cast_plain(2) by (auto simp: add_new_images_def)
    then show ?thesis
      using put_handler_cast_fails[OF usr c e _ cast_plain(3)] by blast
  next
    case cast_added
    have e: "JSON_parse (existing_or_default (existingImages (body req))) = Some (JArr vs)"
      using s cast_added(1) JSON_parse_Some_not_empty[OF cast_added(1)]
      by (simp add: existing_or_default_def)
    have "add_new_images (JArr vs) (files req) = Some (JArr (vs @ map (\<lambda>f. JStr (path f)) fs))"
      using cast_added(2,3) by (simp add: add_new_images_def spread_def comp_def)
    then show ?thesis
      using put_handler_cast_fails[OF usr c e _ cast_added(4)] by blast
  qed
next
  let ?r1 = "req\<lparr>body := (body req)\<lparr>existingImages := Some []\<rparr>\<rparr>"
  let ?r2 = "req\<lparr>body := (body req)\<lparr>existingImages := None\<rparr>\<rparr>"
  have f: "params_id ?r1 = params_id req" "params_id ?r2 = params_id req"
    "req_user ?r1 = req_user req" "req_user ?r2 = req_user req"
    "files ?r1 = files req" "files ?r2 = files req"
    by simp_all
  have e: "existing_or_default (existingImages (body ?r1)) = U ''[]''"
    "existing_or_default (existingImages (body ?r2)) = U ''[]''"
    by (simp_all add: existing_or_default_def)
  have u: "updateData (body ?r1) = updateData (body req)"
    "updateData (body ?r2) = updateData (body req)"
    by (simp_all add: updateData_def fun_eq_iff)
  show "put_handler env w ?r1 = put_handler env w ?r2"
    unfolding put_handler_def f e u by (rule refl)
qed


theorem update_fails_witness:
  "req_user ex_put_malformed = Some \<lparr>user_id = U ''userA''\<rparr> \<and>
   find (owned (params_id ex_put_malformed) (U ''userA'')) (cars ex_world) = Some ex_car \<and>
   existingImages (body ex_put_malformed) = Some (U ''[urlA'') \<and>
   U ''[urlA'' \<noteq> [] \<and> JSON_parse (U ''[urlA'') = None \<and>
   fst (put_handler ex_env ex_world ex_put_malformed) =
     reply 500 (ErrorBody (U ''Error updating car'')) \<and>
   cars (snd (put_handler ex_env ex_world ex_put_malformed)) = cars ex_world \<and>
   existingImages (body ex_put_number_file) = Some (U ''5'') \<and>
   JSON_parse (U ''5'') = Some (JNum (U ''5'')) \<and>
   files ex_put_number_file = Some [\<lparr>path = U ''https://img.example/v1/cars/urlB.jpg''\<rparr>] \<and>
   fst (put_handler ex_env ex_world ex_put_number_file) =
     reply 500 (ErrorBody (U ''Error updating car'')) \<and>
   cars (snd (put_handler ex_env ex_world ex_put_number_file)) = cars ex_world \<and>
   existingImages (body ex_put_number) = Some (U ''5'') \<and> files ex_put_number = None \<and>
   cast_images ex_env (JNum (U ''5'')) = None \<and>
   fst (put_handler ex_env ex_world ex_put_number) =
     reply 500 (ErrorBody (U ''Error updating car'')) \<and>
   cars (snd (put_handler ex_env ex_world ex_put_number)) = cars ex_world \<and>
   put_handler ex_env ex_world ex_put_empty = put_handler ex_env ex_world ex_request"
proof -
  let ?usr = "\<lparr>user_id = U ''userA''\<rparr>"
  let ?goal = "\<lambda>r. fst (put_handler ex_env ex_world r) =
       reply 500 (ErrorBody (U ''Error updating car'')) \<and>
     cars (snd (put_handler ex_env ex_world r)) = cars ex_world"
  have u: "req_user ex_put_malformed = Some ?usr" "req_user ex_put_number_file = Some ?usr"
    "req_user ex_put_number = Some ?usr"
    by code_simp+
  have c: "find (owned (params_id ex_put_malformed) (user_id ?usr)) (cars ex_world) = Some ex_car"
    "find (owned (params_id ex_put_number_file) (user_id ?usr)) (cars ex_world) = Some ex_car"
    "find (owned (params_id ex_put_number) (user_id ?usr)) (cars ex_world) = Some ex_car"
    by code_simp+
  have m: "existingImages (body ex_put_malformed) = Some (U ''[urlA'')"
    "U ''[urlA'' \<noteq> []" "JSON_parse (U ''[urlA'') = None"
    by code_simp+
  have n: "existingImages (body ex_put_number_file) = Some (U ''5'')"
    "existingImages (body ex_put_number) = Some (U ''5'')"
    "JSON_parse (U ''5'') = Some (JNum (U ''5''))"
    "files ex_put_number_file = Some [\<lparr>path = U ''https://img.example/v1/cars/urlB.jpg''\<rparr>]"
    "files ex_put_number = None"
    by code_simp+
  have k: "cast_images ex_env (JNum (U ''5'')) = None"
    by (simp add: cast_images_def ex_env_def)
  have "?goal ex_put_malformed"
    using update_fails_on_unusable_existingImages[of ex_put_malformed ?usr ex_world ex_car
        "U ''[urlA''" ex_env] u(1) c(1) m
    by blast
  moreover have "?goal ex_put_number_file"
    using update_fails_on_unusable_existingImages[of ex_put_number_file ?usr ex_world ex_car
        "U ''5''" ex_env] u(2) c(2) n(1,3,4)
    by blast
  moreover have "?goal ex_put_number"
    using update_fails_on_unusable_existingImages[of ex_put_number ?usr ex_world ex_car
        "U ''5''" ex_env] u(3) c(3) n(2,3,5) k
    by blast
  moreover have "put_handler ex_env ex_world ex_put_empty = put_handler ex_env ex_world ex_request"
  proof -
    have "ex_request\<lparr>body := (body ex_request)\<lparr>existingImages := Some []\<rparr>\<rparr> = ex_put_empty"
      by (simp add: ex_put_empty_def ex_request_def)
    moreover have "ex_request\<lparr>body := (body ex_request)\<lparr>existingImages := None\<rparr>\<rparr> = ex_request"
      by (simp add: ex_request_def ex_body_def)
    ultimately show ?thesis
      using update_fails_on_unusable_existingImages[of ex_request ?usr ex_world ex_car
          "[]" ex_env]
      by simp
  qed
  ultimately show ?thesis
    using u(1) c(1) m n k by simp
qed

text \<open>
  C7 as stated fails at two texts that are not serialized lists. A present but empty
  \<open>existingImages\<close> (\<^verbatim>\<open>JSON.parse('')\<close> throws) takes the default of
  \<^verbatim>\<open>existingImages || "[]"\<close>: the update answers 200 and the record loses its images.
  The JSON string \<^verbatim>\<open>"ab"\<close> sent with a new file is spread into its characters: the
  update answers 200 and stores \<^verbatim>\<open>a\<close>, \<^verbatim>\<open>b\<close> and the new URL.
\<close>

theorem update_non_list_counterexample:
  "req_user ex_put_empty = Some \<lparr>user_id = U ''userA''\<rparr> \<and>
   find (owned (params_id ex_put_empty) (U ''userA'')) (cars ex_world) = Some ex_car \<and>
   existingImages (body ex_put_empty) = Some [] \<and>
   JSON_parse [] = None \<and>
   status (fst (put_handler ex_env ex_world ex_put_empty)) = 200 \<and>
   map images (cars ex_world) =
     [[U ''https://img.example/v1/cars/urlA.jpg'', U ''https://img.example/v1/cars/urlC.png'']] \<and>
   map images (cars (snd (put_handler ex_env ex_world ex_put_empty))) = [[]] \<and>
   req_user ex_put_string = Some \<lparr>user_id = U ''userA''\<rparr> \<and>
   find (owned (params_id ex_put_string) (U ''userA'')) (cars ex_world) = Some ex_car \<and>
   existingImages (body ex_put_string) = Some (0x22 # U ''ab'' @ [0x22]) \<and>
   JSON_parse (0x22 # U ''ab'' @ [0x22]) = Some (JStr (U ''ab'')) \<and>
   status (fst (put_handler ex_env ex_world ex_put_string)) = 200 \<and>
   map images (cars (snd (put_handler ex_env ex_world ex_put_string))) =
     [[U ''a'', U ''b'', U ''https://img.example/v1/cars/urlB.jpg'']]"
  by code_simp

text \<open>
  C10. In an update the lookup scoped to the caller comes before the parse: when it
  finds nothing the answer is 404, whatever \<open>existingImages\<close> holds, malformed text
  included; nothing is written.
\<close>

theorem update_not_found_before_parse:
  assumes "req_user req = Some usr"
    and "\<not> fails env (CarFindOne (params_id req) (user_id usr))"
    and "find (owned (params_id req) (user_id usr)) (cars w) = None"
  shows "put_handler env w (req\<lparr>body := (body req)\<lparr>existingImages := e\<rparr>\<rparr>) =
           (reply 404 (ErrorBody (U ''Car not found'')),
            issue (CarFindOne (params_id req) (user_id usr)) w)"
  using assms by (simp add: put_handler_def Car_findOne_ok)

theorem update_not_found_before_parse_witness:
  "req_user ex_put_foreign = Some \<lparr>user_id = U ''userB''\<rparr> \<and>
   find (owned (params_id ex_put_foreign) (U ''userB'')) (cars ex_world) = None \<and>
   JSON_parse (existing_or_default (Some (U ''[urlA''))) = None \<and>
   put_handler ex_env ex_world (ex_put_foreign\<lparr>body := (body ex_put_foreign)\<lparr>existingImages := Some (U ''[urlA'')\<rparr>\<rparr>) =
     (reply 404 (ErrorBody (U ''Car not found'')),
      issue (CarFindOne (params_id ex_put_foreign) (U ''userB'')) ex_world) \<and>
   status (fst (put_handler ex_env ex_world ex_put_malformed)) = 500"
proof -
  let ?usr = "\<lparr>user_id = U ''userB''\<rparr>"
  have h1: "req_user ex_put_foreign = Some ?usr" by code_simp
  have h2: "\<not> fails ex_env (CarFindOne (params_id ex_put_foreign) (user_id ?usr))"
    by (simp add: ex_env_def)
  have h3: "find (owned (params_id ex_put_foreign) (user_id ?usr)) (cars ex_world) = None"
    by code_simp
  have h4: "JSON_parse (existing_or_default (Some (U ''[urlA''))) = None" by code_simp
  have h5: "status (fst (put_handler ex_env ex_world ex_put_malformed)) = 500" by code_simp
  from update_not_found_before_parse[OF h1 h2 h3, of "Some (U ''[urlA'')"] h1 h3 h4 h5
  show ?thesis by simp
qed

lemma add_new_images_cases:
  assumes "add_new_images p (files req) = Some v"
  shows "(new_urls req = [] \<longrightarrow> v = p) \<and>
         (new_urls req \<noteq> [] \<longrightarrow>
            (\<exists>vs. p = JArr vs \<and> v = JArr (vs @ map JStr (new_urls req))) \<or>
            (\<exists>t. p = JStr t \<and> v = JArr (map JStr (code_points t) @ map JStr (new_urls req))))"
  using assms
  by (auto simp: add_new_images_def spread_def new_urls_def comp_def
      split: option.splits if_splits json.splits)

text \<open>
  C8. An update that answers 200 has replaced title, description and tags of the record
  by the values of the request, and its images by the reconciled list, in one
  \<^verbatim>\<open>findOneAndUpdate\<close> call (the only write of the run); identifier and owner stay, and
  the body of the answer is the record as stored after the update. The reconciled list:
  \<open>p\<close> is what \<^verbatim>\<open>JSON.parse\<close> gives for \<open>existingImages\<close> (for \<^verbatim>\<open>[]\<close> when the field is
  absent or empty); the value \<open>v\<close> written is \<open>p\<close> itself without new files, and with
  new files the elements of \<open>p\<close> followed by the new URLs; whenever \<open>p\<close> is a list of
  strings \<open>retained\<close>, the stored images are \<open>retained\<close> followed by the new URLs.
\<close>

theorem successful_update_replaces_fields:
  assumes "status (fst (put_handler env w req)) = 200"
  shows "\<exists>usr c c' p v.
           req_user req = Some usr \<and>
           find (owned (params_id req) (user_id usr)) (cars w) = Some c \<and>
           JSON_parse (case existingImages (body req) of
                         None \<Rightarrow> U ''[]''
                       | Some s \<Rightarrow> if s = [] then U ''[]'' else s) = Some p \<and>
           (new_urls req = [] \<longrightarrow> v = p) \<and>
           (new_urls req \<noteq> [] \<longrightarrow>
              (\<exists>vs. p = JArr vs \<and> v = JArr (vs @ map JStr (new_urls req))) \<or>
              (\<exists>t. p = JStr t \<and>
                   v = JArr (map JStr (code_points t) @ map JStr (new_urls req)))) \<and>
           (\<forall>retained. p = JArr (map JStr retained) \<longrightarrow>
              images c' = retained @ new_urls req) \<and>
           JSON_parse (existing_or_default (existingImages (body req))) = Some p \<and>
           add_new_images p (files req) = Some v \<and>
           fst (put_handler env w req) = reply 200 (CarBody (Some c')) \<and>
           title c' = body_title (body req) \<and>
           description c' = body_description (body req) \<and>
           tags c' = body_tags (body req) \<and>
           cast_images env v = Some (images c') \<and>
           car_id c' = car_id c \<and> user c' = user c \<and>
           cars (snd (put_handler env w req)) =
             update_first (owned (params_id req) (user_id usr)) (\<lambda>_. c') (cars w) \<and>
           find (owned (params_id req) (user_id usr)) (cars (snd (put_handler env w req)))
             = Some c' \<and>
           trace (snd (put_handler env w req)) =
             trace w @ [CarFindOne (params_id req) (user_id usr),
                        CarFindOneAndUpdate (params_id req) (user_id usr)
                          \<lparr>ud_title = body_title (body req),
                           ud_description = body_description (body req),
                           ud_tags = body_tags (body req), ud_images = v\<rparr>]"
proof -
  from assms obtain usr c p v imgs where
    usr: "req_user req = Some usr" and
    ok1: "\<not> fails env (CarFindOne (params_id req) (user_id usr))" and
    c: "find (owned (params_id req) (user_id usr)) (cars w) = Some c" and
    p: "JSON_parse (existing_or_default (existingImages (body req))) = Some p" and
    v: "add_new_images p (files req) = Some v" and
    ok2: "\<not> fails env (CarFindOneAndUpdate (params_id req) (user_id usr)
             (updateData (body req) v))" and
    imgs: "cast_images env v = Some imgs"
    by (rule put_handler_200)
  let ?ud = "updateData (body req) v"
  let ?c' = "apply_update ?ud imgs c"
  let ?w1 = "issue (CarFindOne (params_id req) (user_id usr)) w"
  have f: "find (owned (params_id req) (user_id usr)) (cars ?w1) = Some c"
    using c by simp
  have ci: "cast_images env (ud_images ?ud) = Some imgs"
    using imgs by (simp add: updateData_def)
  have run: "put_handler env w req =
      (reply 200 (CarBody (Some ?c')),
       (issue (CarFindOneAndUpdate (params_id req) (user_id usr) ?ud) ?w1)
         \<lparr>cars := update_first (owned (params_id req) (user_id usr)) (\<lambda>_. ?c') (cars w)\<rparr>)"
    unfolding put_handler_at_update[OF usr ok1 c p v] Car_findOneAndUpdate_ok[OF ok2 ci f]
    by simp
  have o: "owned (params_id req) (user_id usr) ?c'"
    using find_Some_holds[OF c] by simp
  have fields: "title ?c' = body_title (body req)" "description ?c' = body_description (body req)"
    "tags ?c' = body_tags (body req)" "images ?c' = imgs" "car_id ?c' = car_id c"
    "user ?c' = user c"
    by (simp_all add: apply_update_def updateData_def)
  have stored: "find (owned (params_id req) (user_id usr)) (cars (snd (put_handler env w req)))
      = Some ?c'"
    using find_update_first[OF c o] by (simp add: run)
  have tr: "trace (snd (put_handler env w req)) =
      trace w @ [CarFindOne (params_id req) (user_id usr),
                 CarFindOneAndUpdate (params_id req) (user_id usr)
                   \<lparr>ud_title = body_title (body req),
                    ud_description = body_description (body req),
                    ud_tags = body_tags (body req), ud_images = v\<rparr>]"
    by (simp add: run issue_def updateData_def)
  have cs: "cars (snd (put_handler env w req)) =
      update_first (owned (params_id req) (user_id usr)) (\<lambda>_. ?c') (cars w)"
    by (simp add: run)
  have r: "fst (put_handler env w req) = reply 200 (CarBody (Some ?c'))"
    by (simp add: run)
  have pe: "JSON_parse (case existingImages (body req) of
                         None \<Rightarrow> U ''[]''
                       | Some s \<Rightarrow> if s = [] then U ''[]'' else s) = Some p"
    using p by (simp add: existing_or_default_def)
  note shape = add_new_images_cases[OF v]
  have rec: "\<forall>retained. p = JArr (map JStr retained) \<longrightarrow> images ?c' = retained @ new_urls req"
  proof (intro allI impI)
    fix retained
    assume pr: "p = JArr (map JStr retained)"
    have "v = JArr (map JStr (retained @ new_urls req))"
      using v add_new_images_strings[of retained req] unfolding pr by simp
    then have "cast_images env v = Some (retained @ new_urls req)"
      by (simp only: cast_images_strings)
    with imgs fields(4) show "images ?c' = retained @ new_urls req"
      by simp
  qed
  have cast': "cast_images env v = Some (images ?c')"
    using imgs fields(4) by simp
  show ?thesis
    by (rule exI[of _ usr], rule exI[of _ c], rule exI[of _ ?c'], rule exI[of _ p],
        rule exI[of _ v])
       (intro conjI usr c pe shape[THEN conjunct1] shape[THEN conjunct2] rec p v r
          fields(1,2,3) cast' fields(5,6) cs stored tr)
qed

theorem successful_update_witness:
  "status (fst (put_handler ex_env ex_world ex_put)) = 200 \<and>
   existingImages (body ex_put) = Some ex_retained \<and>
   JSON_parse ex_retained = Some (JArr (map JStr [U ''https://img.example/v1/cars/urlA.jpg''])) \<and>
   new_urls ex_put = [U ''https://img.example/v1/cars/urlB.jpg''] \<and>
   (\<exists>c'. fst (put_handler ex_env ex_world ex_put) = reply 200 (CarBody (Some c')) \<and>
      title c' = U ''Model Y'' \<and> description c' = U ''Compact'' \<and>
      tags c' = [U ''electric''] \<and>
      images c' = [U ''https://img.example/v1/cars/urlA.jpg'',
                   U ''https://img.example/v1/cars/urlB.jpg''] \<and>
      car_id c' = U ''car1'' \<and> user c' = U ''userA'' \<and>
      cars (snd (put_handler ex_env ex_world ex_put)) = [c'])"
proof -
  have h: "status (fst (put_handler ex_env ex_world ex_put)) = 200" by code_simp
  have e: "existingImages (body ex_put) = Some ex_retained" by code_simp
  have ne: "ex_retained \<noteq> []" by code_simp
  have pr: "JSON_parse ex_retained =
      Some (JArr (map JStr [U ''https://img.example/v1/cars/urlA.jpg'']))" by code_simp
  have n: "new_urls ex_put = [U ''https://img.example/v1/cars/urlB.jpg'']" by code_simp
  have b: "body_title (body ex_put) = U ''Model Y''" "body_description (body ex_put) = U ''Compact''"
    "body_tags (body ex_put) = [U ''electric'']" "req_user ex_put = Some \<lparr>user_id = U ''userA''\<rparr>"
    "find (owned (params_id ex_put) (U ''userA'')) (cars ex_world) = Some ex_car"
    "car_id ex_car = U ''car1''" "user ex_car = U ''userA''"
    "\<And>c'. update_first (owned (params_id ex_put) (U ''userA'')) (\<lambda>_. c') (cars ex_world) = [c']"
    by code_simp+
  from successful_update_replaces_fields[OF h] obtain usr c c' p where
    t: "req_user ex_put = Some usr"
      "find (owned (params_id ex_put) (user_id usr)) (cars ex_world) = Some c"
      "JSON_parse (case existingImages (body ex_put) of
                         None \<Rightarrow> U ''[]''
                       | Some s \<Rightarrow> if s = [] then U ''[]'' else s) = Some p"
      "\<forall>retained. p = JArr (map JStr retained) \<longrightarrow> images c' = retained @ new_urls ex_put"
      "fst (put_handler ex_env ex_world ex_put) = reply 200 (CarBody (Some c'))"
      "title c' = body_title (body ex_put)" "description c' = body_description (body ex_put)"
      "tags c' = body_tags (body ex_put)" "car_id c' = car_id c" "user c' = user c"
      "cars (snd (put_handler ex_env ex_world ex_put)) =
         update_first (owned (params_id ex_put) (user_id usr)) (\<lambda>_. c') (cars ex_world)"
    by blast
  from t(3) e ne pr have pp: "p = JArr (map JStr [U ''https://img.example/v1/cars/urlA.jpg''])"
    by simp
  from t(4)[rule_format, OF pp] n
  have i: "images c' = [U ''https://img.example/v1/cars/urlA.jpg'',
                   U ''https://img.example/v1/cars/urlB.jpg'']"
    by simp
  from t(1) b(4) have us: "usr = \<lparr>user_id = U ''userA''\<rparr>"
    by simp
  from t(2) b(5) have "c = ex_car"
    unfolding us by simp
  with us t i b h e pr n show ?thesis
    by (intro conjI exI[of _ c']) simp_all
qed

section \<open>Ownership\<close>

lemma find_owned_foreign:
  assumes "c \<in> set cs" and "car_id c = i" and "user c \<noteq> u" and "distinct (map car_id cs)"
  shows "find (owned i u) cs = None"
proof -
  have "\<not> owned i u x" if "x \<in> set cs" for x
  proof
    assume o: "owned i u x"
    from assms(4) have "inj_on car_id (set cs)"
      by (simp add: distinct_map)
    with that assms(1,2) o have "x = c"
      by (auto simp: owned_def dest: inj_onD)
    with o assms(3) show False
      by (simp add: owned_def)
  qed
  then show ?thesis
    by (auto simp: find_None_iff)
qed

lemma find_owned_absent:
  "\<forall>c \<in> set cs. car_id c \<noteq> i \<Longrightarrow> find (owned i u) cs = None"
  by (auto simp: find_None_iff owned_def)

lemma not_found_get:
  assumes "req_user req = Some usr"
    and "\<not> fails env (CarFindOne (params_id req) (user_id usr))"
    and "find (owned (params_id req) (user_id usr)) (cars w) = None"
  shows "get_handler env w req =
     (reply 404 (ErrorBody (U ''Car not found'')),
      issue (CarFindOne (params_id req) (user_id usr)) w)"
  using assms by (simp add: get_handler_def Car_findOne_ok)

lemma not_found_put:
  assumes "req_user req = Some usr"
    and "\<not> fails env (CarFindOne (params_id req) (user_id usr))"
    and "find (owned (params_id req) (user_id usr)) (cars w) = None"
  shows "put_handler env w req =
     (reply 404 (ErrorBody (U ''Car not found'')),
      issue (CarFindOne (params_id req) (user_id usr)) w)"
  using assms by (simp add: put_handler_def Car_findOne_ok)

lemma not_found_delete:
  assumes "req_user req = Some usr"
    and "\<not> fails env (CarFindOne (params_id req) (user_id usr))"
    and "find (owned (params_id req) (user_id usr)) (cars w) = None"
  shows "delete_handler env w req =
     (reply 404 (ErrorBody (U ''Car not found'')),
      issue (CarFindOne (params_id req) (user_id usr)) w)"
  using assms by (simp add: delete_handler_def Car_findOne_ok)

text \<open>
  C3. A record with the requested identifier exists and belongs to somebody other than
  the caller (identifiers are unique in the store). Then Get, Update and Delete each
  answer 404 \<^verbatim>\<open>Car not found\<close>, leave every record as it was, and give the very answer
  they give in a world \<open>w0\<close> where no record has that identifier.
\<close>

theorem foreign_record_is_not_found:
  assumes "req_user req = Some caller"
    and "c \<in> set (cars w)"
    and "car_id c = params_id req"
    and "user c \<noteq> user_id caller"
    and "distinct (map car_id (cars w))"
    and "\<not> fails env (CarFindOne (params_id req) (user_id caller))"
    and "\<forall>c0 \<in> set (cars w0). car_id c0 \<noteq> params_id req"
  shows "\<forall>h \<in> {get_handler, put_handler, delete_handler}.
           fst (h env w req) = reply 404 (ErrorBody (U ''Car not found'')) \<and>
           cars (snd (h env w req)) = cars w \<and>
           fst (h env w0 req) = fst (h env w req)"
proof -
  have n: "find (owned (params_id req) (user_id caller)) (cars w) = None"
    using assms(2-5) by (rule find_owned_foreign)
  have n0: "find (owned (params_id req) (user_id caller)) (cars w0) = None"
    using assms(7) by (rule find_owned_absent)
  note a = assms(1) assms(6)
  show ?thesis
    by (simp add: not_found_get[OF a n] not_found_put[OF a n] not_found_delete[OF a n]
        not_found_get[OF a n0] not_found_put[OF a n0] not_found_delete[OF a n0])
qed

theorem foreign_record_witness:
  "req_user ex_foreign = Some \<lparr>user_id = U ''userB''\<rparr> \<and>
   ex_car \<in> set (cars ex_world) \<and> car_id ex_car = params_id ex_foreign \<and>
   user ex_car \<noteq> U ''userB'' \<and> distinct (map car_id (cars ex_world)) \<and>
   cars ex_world_empty = [] \<and>
   fst (get_handler ex_env ex_world ex_foreign) = reply 404 (ErrorBody (U ''Car not found'')) \<and>
   fst (put_handler ex_env ex_world ex_foreign) = reply 404 (ErrorBody (U ''Car not found'')) \<and>
   fst (delete_handler ex_env ex_world ex_foreign) = reply 404 (ErrorBody (U ''Car not found'')) \<and>
   cars (snd (delete_handler ex_env ex_world ex_foreign)) = cars ex_world \<and>
   fst (get_handler ex_env ex_world_empty ex_foreign) = fst (get_handler ex_env ex_world ex_foreign) \<and>
   status (fst (get_handler ex_env ex_world ex_request)) = 200"
proof -
  let ?b = "\<lparr>user_id = U ''userB''\<rparr>"
  have h1: "req_user ex_foreign = Some ?b" by code_simp
  have h2: "ex_car \<in> set (cars ex_world)" by (simp add: ex_world_def)
  have h3: "car_id ex_car = params_id ex_foreign" by code_simp
  have h4: "user ex_car \<noteq> user_id ?b" by code_simp
  have h5: "distinct (map car_id (cars ex_world))" by (simp add: ex_world_def)
  have h6: "\<not> fails ex_env (CarFindOne (params_id ex_foreign) (user_id ?b))"
    by (simp add: ex_env_def)
  have h7: "\<forall>c0 \<in> set (cars ex_world_empty). car_id c0 \<noteq> params_id ex_foreign"
    by (simp add: ex_world_empty_def)
  have h8: "status (fst (get_handler ex_env ex_world ex_request)) = 200" by code_simp
  have h9: "cars ex_world_empty = []" by (simp add: ex_world_empty_def)
  from foreign_record_is_not_found[OF h1 h2 h3 h4 h5 h6 h7] h1 h2 h3 h4 h5 h8 h9
  show ?thesis by simp
qed

section \<open>Create\<close>

text \<open>
  C4. A create whose save succeeds answers 201 with the saved record: its \<open>user\<close> is
  the caller's identifier and its images are the URLs of the uploaded files, one per
  file and in the order of submission (none for no files).
\<close>

theorem create_sets_owner_and_images:
  assumes "req_user req = Some usr"
    and "\<not> fails env (CarSave (new_Car env w (body req) (new_urls req) (user_id usr)))"
  shows "\<exists>saved. fst (post_handler env w req) = reply 201 (CarBody (Some saved)) \<and>
           saved \<in> set (cars (snd (post_handler env w req))) \<and>
           user saved = user_id usr \<and>
           images saved = new_urls req \<and>
           (\<forall>fs. files req = Some fs \<longrightarrow>
              length (images saved) = length fs \<and>
              (\<forall>k < length fs. images saved ! k = path (fs ! k))) \<and>
           (files req = None \<or> files req = Some [] \<longrightarrow> images saved = [])"
proof -
  let ?c = "new_Car env w (body req) (new_urls req) (user_id usr)"
  have imgs: "(case files req of Some fs \<Rightarrow> map path fs | None \<Rightarrow> []) = new_urls req"
    by (simp add: new_urls_def split: option.splits)
  have run: "post_handler env w req =
      (reply 201 (CarBody (Some ?c)), issue (CarSave ?c) (w\<lparr>cars := cars w @ [?c]\<rparr>))"
    using assms by (simp add: post_handler_def imgs Car_save_def Let_def)
  have "user ?c = user_id usr" "images ?c = new_urls req"
    by (simp_all add: new_Car_def)
  moreover have "?c \<in> set (cars (snd (post_handler env w req)))"
    by (simp add: run)
  moreover have "fst (post_handler env w req) = reply 201 (CarBody (Some ?c))"
    by (simp add: run)
  moreover have "\<forall>fs. files req = Some fs \<longrightarrow>
      length (new_urls req) = length fs \<and> (\<forall>k < length fs. new_urls req ! k = path (fs ! k))"
    by (simp add: new_urls_def)
  moreover have "files req = None \<or> files req = Some [] \<longrightarrow> new_urls req = []"
    by (auto simp: new_urls_def)
  ultimately show ?thesis
    by (intro exI[of _ ?c]) simp
qed

theorem create_witness:
  "fst (post_handler ex_env ex_world (ex_post\<lparr>req_user := Some \<lparr>user_id = U ''userA''\<rparr>\<rparr>)) =
     reply 201 (CarBody (Some
       \<lparr>car_id = U ''car11'', title = U ''Tesla Model X'',
        description = U ''Fully electric luxury SUV'', tags = [U ''electric'', U ''luxury''],
        images = [U ''https://img.example/v1/cars/one.jpg'',
                  U ''https://img.example/v1/cars/two.jpg''],
        user = U ''userA''\<rparr>))"
proof -
  let ?usr = "\<lparr>user_id = U ''userA''\<rparr>"
  let ?req = "ex_post\<lparr>req_user := Some ?usr\<rparr>"
  have h1: "req_user ?req = Some ?usr" by simp
  have h2: "\<not> fails ex_env (CarSave (new_Car ex_env ex_world (body ?req) (new_urls ?req)
      (user_id ?usr)))"
    by (simp add: ex_env_def)
  from create_sets_owner_and_images[OF h1 h2] obtain saved where
    s: "fst (post_handler ex_env ex_world ?req) = reply 201 (CarBody (Some saved))"
       "user saved = user_id ?usr" "images saved = new_urls ?req"
    by blast
  have "fst (post_handler ex_env ex_world ?req) = reply 201 (CarBody (Some
       \<lparr>car_id = U ''car11'', title = U ''Tesla Model X'',
        description = U ''Fully electric luxury SUV'', tags = [U ''electric'', U ''luxury''],
        images = [U ''https://img.example/v1/cars/one.jpg'',
                  U ''https://img.example/v1/cars/two.jpg''],
        user = U ''userA''\<rparr>))"
    by code_simp
  with s show ?thesis by simp
qed

section \<open>Authentication\<close>

lemma handler_status:
  "status (fst (handler_of ep env w r)) \<in> {200, 201, 404, 500}"
proof (cases ep)
  case POST_cars
  then show ?thesis
    by (auto simp: post_handler_def Car_save_def Let_def split: option.splits)
next
  case PUT_car
  then show ?thesis
    by (auto simp: put_handler_def Let_def
        split: option.splits outcome.splits prod.splits)
next
  case DELETE_car
  then show ?thesis
    by (auto simp: delete_handler_def Let_def
        split: option.splits outcome.splits prod.splits bool.splits)
next
  case GET_cars
  then show ?thesis
    by (auto simp: get_all_handler_def Let_def
        split: option.splits outcome.splits prod.splits)
next
  case GET_car
  then show ?thesis
    by (auto simp: get_handler_def Let_def
        split: option.splits outcome.splits prod.splits)
qed

lemma handler_status_not_401: "status (fst (handler_of ep env w r)) \<noteq> 401"
  using handler_status[of ep env w r] by auto

lemma authMiddleware_401_any_next:
  assumes "status (fst (authMiddleware env w req (\<lambda>r w'. handler_of ep env w' r))) = 401"
  shows "authMiddleware env w req next =
         authMiddleware env w req (\<lambda>r w'. handler_of ep env w' r)"
  using assms handler_status_not_401
  by (auto simp: authMiddleware_def split: option.splits outcome.splits prod.splits if_splits)

text \<open>
  C5. On every car endpoint: no \<^verbatim>\<open>Authorization\<close> header answers 401
  \<^verbatim>\<open>Authorization required\<close>; a (non-empty) token that \<^verbatim>\<open>jwt.verify\<close> rejects answers
  401 \<^verbatim>\<open>Invalid token\<close>; a verified token whose subject is not among the users answers
  401 \<^verbatim>\<open>User not found\<close>. In the first two cases the world, its trace of store calls
  included, is returned as it was. Whenever the answer is 401 it is the middleware's
  own: it is the same for every continuation put behind the middleware, so the handler
  had no part in it.
\<close>

theorem unauthenticated_requests_are_refused:
  "(authorization req = None \<longrightarrow>
      cars_router env w ep req =
        (reply 401 (ErrorBody (U ''Authorization required'')), w)) \<and>
   (\<forall>h. authorization req = Some h \<and> replace_first (U ''Bearer '') [] h \<noteq> [] \<and>
        jwt_verify env (replace_first (U ''Bearer '') [] h) = None \<longrightarrow>
      cars_router env w ep req = (reply 401 (ErrorBody (U ''Invalid token'')), w)) \<and>
   (\<forall>h i. authorization req = Some h \<and> replace_first (U ''Bearer '') [] h \<noteq> [] \<and>
        jwt_verify env (replace_first (U ''Bearer '') [] h) = Some i \<and>
        \<not> fails env (UserFindById i) \<and> find (\<lambda>u. user_id u = i) (users w) = None \<longrightarrow>
      cars_router env w ep req =
        (reply 401 (ErrorBody (U ''User not found'')), issue (UserFindById i) w)) \<and>
   (status (fst (cars_router env w ep req)) = 401 \<longrightarrow>
      (\<forall>next. authMiddleware env w req next = cars_router env w ep req))"
proof (intro conjI allI impI)
  assume "authorization req = None"
  then show "cars_router env w ep req =
      (reply 401 (ErrorBody (U ''Authorization required'')), w)"
    by (simp add: cars_router_def authMiddleware_def)
next
  fix h
  assume "authorization req = Some h \<and> replace_first (U ''Bearer '') [] h \<noteq> [] \<and>
        jwt_verify env (replace_first (U ''Bearer '') [] h) = None"
  then show "cars_router env w ep req = (reply 401 (ErrorBody (U ''Invalid token'')), w)"
    by (simp add: cars_router_def authMiddleware_def)
next
  fix h i
  assume "authorization req = Some h \<and> replace_first (U ''Bearer '') [] h \<noteq> [] \<and>
        jwt_verify env (replace_first (U ''Bearer '') [] h) = Some i \<and>
        \<not> fails env (UserFindById i) \<and> find (\<lambda>u. user_id u = i) (users w) = None"
  then show "cars_router env w ep req =
        (reply 401 (ErrorBody (U ''User not found'')), issue (UserFindById i) w)"
    by (simp add: cars_router_def authMiddleware_def User_findById_def)
next
  fix k
  assume "status (fst (cars_router env w ep req)) = 401"
  then show "authMiddleware env w req k = cars_router env w ep req"
    unfolding cars_router_def by (rule authMiddleware_401_any_next)
qed

theorem unauthenticated_witness:
  "cars_router ex_env ex_world POST_cars ex_no_header =
     (reply 401 (ErrorBody (U ''Authorization required'')), ex_world) \<and>
   cars_router ex_env ex_world DELETE_car ex_bad_token =
     (reply 401 (ErrorBody (U ''Invalid token'')), ex_world) \<and>
   cars_router ex_env ex_world GET_cars ex_stale_token =
     (reply 401 (ErrorBody (U ''User not found'')), issue (UserFindById (U ''userZ'')) ex_world) \<and>
   status (fst (cars_router ex_env ex_world GET_cars ex_stale_token)) = 401 \<and>
   authMiddleware ex_env ex_world ex_stale_token (\<lambda>r w'. (reply 200 (MessageBody []), w')) =
     cars_router ex_env ex_world GET_cars ex_stale_token \<and>
   status (fst (cars_router ex_env ex_world POST_cars ex_post)) = 201"
proof -
  have a: "authorization ex_no_header = None" by code_simp
  have b: "authorization ex_bad_token = Some (U ''Bearer forged'') \<and>
      replace_first (U ''Bearer '') [] (U ''Bearer forged'') \<noteq> [] \<and>
      jwt_verify ex_env (replace_first (U ''Bearer '') [] (U ''Bearer forged'')) = None"
    by code_simp
  have c: "authorization ex_stale_token = Some (U ''Bearer tokenZ'') \<and>
      replace_first (U ''Bearer '') [] (U ''Bearer tokenZ'') \<noteq> [] \<and>
      jwt_verify ex_env (replace_first (U ''Bearer '') [] (U ''Bearer tokenZ'')) =
        Some (U ''userZ'') \<and>
      \<not> fails ex_env (UserFindById (U ''userZ'')) \<and>
      find (\<lambda>u. user_id u = U ''userZ'') (users ex_world) = None"
    by code_simp
  have d: "status (fst (cars_router ex_env ex_world POST_cars ex_post)) = 201"
    by code_simp
  note t1 = unauthenticated_requests_are_refused[of ex_no_header ex_env ex_world POST_cars]
  note t2 = unauthenticated_requests_are_refused[of ex_bad_token ex_env ex_world DELETE_car]
  note t3 = unauthenticated_requests_are_refused[of ex_stale_token ex_env ex_world GET_cars]
  from t1 a have r1: "cars_router ex_env ex_world POST_cars ex_no_header =
     (reply 401 (ErrorBody (U ''Authorization required'')), ex_world)" by blast
  from t2 b have r2: "cars_router ex_env ex_world DELETE_car ex_bad_token =
     (reply 401 (ErrorBody (U ''Invalid token'')), ex_world)" by blast
  from t3 c have r3: "cars_router ex_env ex_world GET_cars ex_stale_token =
     (reply 401 (ErrorBody (U ''User not found'')), issue (UserFindById (U ''userZ'')) ex_world)"
    by blast
  then have s: "status (fst (cars_router ex_env ex_world GET_cars ex_stale_token)) = 401"
    by simp
  with t3 have r4: "authMiddleware ex_env ex_world ex_stale_token
      (\<lambda>r w'. (reply 200 (MessageBody []), w')) =
     cars_router ex_env ex_world GET_cars ex_stale_token" by blast
  from r1 r2 r3 s r4 d show ?thesis by blast
qed

section \<open>Delete\<close>

lemma split_on_not_Nil [simp]: "split_on sep xs \<noteq> []"
  by (induction xs) (auto split: list.splits)

lemma split_on_no_sep: "sep \<notin> set xs \<Longrightarrow> split_on sep xs = [xs]"
  by (induction xs) auto

lemma split_on_sep_tail: "sep \<in> set xs \<Longrightarrow> tl (split_on sep xs) \<noteq> []"
  by (induction xs) (auto split: list.splits)

lemma hd_split_on: "hd (split_on sep xs) = takeWhile (\<lambda>c. c \<noteq> sep) xs"
  by (induction xs) (auto split: list.splits)

lemma takeWhile_snoc_sep:
  "takeWhile (\<lambda>c. c \<noteq> sep) (ys @ [sep]) = takeWhile (\<lambda>c. c \<noteq> sep) ys"
  by (induction ys) auto

lemma last_split_on: "last (split_on sep xs) = rev (takeWhile (\<lambda>c. c \<noteq> sep) (rev xs))"
proof (induction xs)
  case Nil
  then show ?case by simp
next
  case (Cons c cs)
  show ?case
  proof (cases "c = sep")
    case True
    then show ?thesis
      using Cons by (simp add: takeWhile_snoc_sep)
  next
    case False
    show ?thesis
    proof (cases "sep \<in> set cs")
      case True
      then obtain s t ss where sp: "split_on sep cs = s # t # ss"
        using split_on_sep_tail[OF True] by (cases "split_on sep cs") (auto simp: neq_Nil_conv)
      from True have "sep \<in> set (rev cs)" by simp
      then have "takeWhile (\<lambda>c. c \<noteq> sep) (rev cs @ [c]) = takeWhile (\<lambda>c. c \<noteq> sep) (rev cs)"
        by (rule takeWhile_append1) simp
      with Cons sp False show ?thesis by simp
    next
      case nosep: False
      have "takeWhile (\<lambda>c. c \<noteq> sep) (rev (c # cs)) = rev (c # cs)"
        by (rule takeWhile_eq_all_conv[THEN iffD2]) (use False nosep in auto)
      then have r: "rev (takeWhile (\<lambda>c. c \<noteq> sep) (rev (c # cs))) = c # cs"
        by (simp only: rev_rev_ident)
      have l: "last (split_on sep (c # cs)) = c # cs"
        using False split_on_no_sep[OF nosep] by simp
      show ?thesis
        by (simp only: r l)
    qed
  qed
qed

lemma publicId_of_eq:
  "publicId_of url = Some (takeWhile (\<lambda>c. c \<noteq> 0x2E) (final_segment url))"
proof -
  obtain s ss where s: "split_on 0x2F url = s # ss"
    by (cases "split_on 0x2F url") simp_all
  obtain t ts where t: "split_on 0x2E (last (s # ss)) = t # ts"
    by (cases "split_on 0x2E (last (s # ss))") simp_all
  have "t = takeWhile (\<lambda>c. c \<noteq> 0x2E) (last (s # ss))"
    using hd_split_on[of "0x2E" "last (s # ss)"] t by simp
  moreover have "last (s # ss) = final_segment url"
    using last_split_on[of "0x2F" url] s by (simp add: final_segment_def)
  ultimately show ?thesis
    using s t by (simp add: publicId_of_def pop_def first_elem_def)
qed

lemma destroy_images_Cons:
  "destroy_images env w (url # rest) =
     (if fails env (CloudDestroy (destroy_target url))
      then (False, issue (CloudDestroy (destroy_target url)) w)
      else destroy_images env (issue (CloudDestroy (destroy_target url)) w) rest)"
  by (simp add: publicId_of_eq destroy_target_def Let_def)

lemma destroy_images_all_ok:
  "\<forall>url \<in> set urls. \<not> fails env (CloudDestroy (destroy_target url)) \<Longrightarrow>
   destroy_images env w urls =
     (True, w\<lparr>trace := trace w @ map (\<lambda>url. CloudDestroy (destroy_target url)) urls\<rparr>)"
proof (induction urls arbitrary: w)
  case Nil
  then show ?case by simp
next
  case (Cons url urls)
  then show ?case
    by (simp add: destroy_images_Cons issue_def del: destroy_images.simps)
qed

lemma destroy_images_first_failure:
  assumes "\<forall>url \<in> set before. \<not> fails env (CloudDestroy (destroy_target url))"
    and "fails env (CloudDestroy (destroy_target bad))"
  shows "destroy_images env w (before @ bad # after) =
     (False, w\<lparr>trace := trace w @
        map (\<lambda>url. CloudDestroy (destroy_target url)) (before @ [bad])\<rparr>)"
  using assms
proof (induction before arbitrary: w)
  case Nil
  then show ?case
    by (simp add: destroy_images_Cons issue_def del: destroy_images.simps)
next
  case (Cons url before)
  then show ?case
    by (simp add: destroy_images_Cons issue_def del: destroy_images.simps)
qed

lemma destroy_images_True:
  "destroy_images env w urls = (True, w') \<Longrightarrow>
   \<forall>url \<in> set urls. \<not> fails env (CloudDestroy (destroy_target url))"
proof (induction urls arbitrary: w)
  case Nil
  then show ?case by simp
next
  case (Cons url urls)
  then show ?case
    by (auto simp: destroy_images_Cons simp del: destroy_images.simps split: if_splits)
qed

lemma destroy_images_cars: "cars (snd (destroy_images env w urls)) = cars w"
proof (induction urls arbitrary: w)
  case Nil
  then show ?case by simp
next
  case (Cons url urls)
  then show ?case
    by (simp add: destroy_images_Cons del: destroy_images.simps)
qed

lemma delete_handler_at_destroy:
  assumes "req_user req = Some usr"
    and "\<not> fails env (CarFindOne (params_id req) (user_id usr))"
    and "find (owned (params_id req) (user_id usr)) (cars w) = Some c"
  shows "delete_handler env w req =
     (case destroy_images env (issue (CarFindOne (params_id req) (user_id usr)) w) (images c) of
        (False, w2) \<Rightarrow> (reply 500 (ErrorBody (U ''Error deleting car'')), w2)
      | (True, w2) \<Rightarrow>
          (case Car_findOneAndDelete env w2 (params_id req) (user_id usr) of
             (Throws, w3) \<Rightarrow> (reply 500 (ErrorBody (U ''Error deleting car'')), w3)
           | (Returns _, w3) \<Rightarrow>
               (reply 200 (MessageBody (U ''Car deleted successfully'')), w3)))"
  using assms by (simp add: delete_handler_def Car_findOne_ok Let_def)

lemma delete_handler_failure:
  assumes "req_user req = Some usr"
    and "\<not> fails env (CarFindOne (params_id req) (user_id usr))"
    and "find (owned (params_id req) (user_id usr)) (cars w) = Some c"
    and "images c = before @ bad # after"
    and "\<forall>url \<in> set before. \<not> fails env (CloudDestroy (destroy_target url))"
    and "fails env (CloudDestroy (destroy_target bad))"
  shows "delete_handler env w req =
     (reply 500 (ErrorBody (U ''Error deleting car'')),
      w\<lparr>trace := trace w @ CarFindOne (params_id req) (user_id usr) #
           map (\<lambda>url. CloudDestroy (destroy_target url)) (before @ [bad])\<rparr>)"
  unfolding delete_handler_at_destroy[OF assms(1-3)] assms(4)
    destroy_images_first_failure[OF assms(5,6)]
  by (simp add: issue_def)

lemma delete_handler_all_ok:
  assumes "req_user req = Some usr"
    and "\<not> fails env (CarFindOne (params_id req) (user_id usr))"
    and "find (owned (params_id req) (user_id usr)) (cars w) = Some c"
    and "\<forall>url \<in> set (images c). \<not> fails env (CloudDestroy (destroy_target url))"
  shows "delete_handler env w req =
     (if fails env (CarFindOneAndDelete (params_id req) (user_id usr))
      then (reply 500 (ErrorBody (U ''Error deleting car'')),
            w\<lparr>trace := trace w @ CarFindOne (params_id req) (user_id usr) #
                 map (\<lambda>url. CloudDestroy (destroy_target url)) (images c) @
                 [CarFindOneAndDelete (params_id req) (user_id usr)]\<rparr>)
      else (reply 200 (MessageBody (U ''Car deleted successfully'')),
            w\<lparr>cars := remove_first (owned (params_id req) (user_id usr)) (cars w),
              trace := trace w @ CarFindOne (params_id req) (user_id usr) #
                 map (\<lambda>url. CloudDestroy (destroy_target url)) (images c) @
                 [CarFindOneAndDelete (params_id req) (user_id usr)]\<rparr>))"
  unfolding delete_handler_at_destroy[OF assms(1-3)] destroy_images_all_ok[OF assms(4)]
  by (simp add: Car_findOneAndDelete_def Let_def issue_def)

lemma delete_handler_cars_changed:
  assumes "req_user req = Some usr"
    and "\<not> fails env (CarFindOne (params_id req) (user_id usr))"
    and "find (owned (params_id req) (user_id usr)) (cars w) = Some c"
    and "cars (snd (delete_handler env w req)) \<noteq> cars w"
  shows "\<forall>url \<in> set (images c). \<not> fails env (CloudDestroy (destroy_target url))"
proof -
  let ?w1 = "issue (CarFindOne (params_id req) (user_id usr)) w"
  obtain b w2 where d: "destroy_images env ?w1 (images c) = (b, w2)"
    by (cases "destroy_images env ?w1 (images c)")
  have "cars w2 = cars w"
    using destroy_images_cars[of env ?w1 "images c"] d by simp
  with assms(4) d have "b"
    unfolding delete_handler_at_destroy[OF assms(1-3)] by (cases b) auto
  with d have "destroy_images env ?w1 (images c) = (True, w2)"
    by simp
  then show ?thesis
    by (rule destroy_images_True)
qed

lemma takeWhile_before: "x \<notin> set xs \<Longrightarrow> takeWhile (\<lambda>c. c \<noteq> x) (xs @ x # ys) = xs"
  by (induction xs) auto

lemma final_segment_append:
  assumes "0x2F \<notin> set seg"
  shows "final_segment (pre @ 0x2F # seg) = seg"
proof -
  have "rev (pre @ 0x2F # seg) = rev seg @ 0x2F # rev pre"
    by simp
  moreover have "takeWhile (\<lambda>c. c \<noteq> 0x2F) (rev seg @ 0x2F # rev pre) = rev seg"
    by (rule takeWhile_before) (use assms in simp)
  ultimately have "takeWhile (\<lambda>c. c \<noteq> 0x2F) (rev (pre @ 0x2F # seg)) = rev seg"
    by (simp only:)
  then show ?thesis
    by (simp only: final_segment_def rev_rev_ident)
qed

lemma destroy_target_shape:
  assumes "0x2F \<notin> set name" "0x2E \<notin> set name" "0x2F \<notin> set ext"
  shows "destroy_target (pre @ U ''/cars/'' @ name @ 0x2E # ext) = U ''cars/'' @ name"
proof -
  have u: "pre @ U ''/cars/'' @ name @ 0x2E # ext = (pre @ U ''/cars'') @ 0x2F # (name @ 0x2E # ext)"
    by (simp add: U_def)
  have "0x2F \<notin> set (name @ 0x2E # ext)"
    using assms by simp
  then have "final_segment ((pre @ U ''/cars'') @ 0x2F # (name @ 0x2E # ext)) = name @ 0x2E # ext"
    by (rule final_segment_append)
  moreover have "takeWhile (\<lambda>ch. ch \<noteq> 0x2E) (name @ 0x2E # ext) = name"
    using assms(2) by (rule takeWhile_before)
  ultimately show ?thesis
    unfolding destroy_target_def u by (simp only:)
qed


lemma delete_handler_reaches:
  assumes "req_user req = Some usr"
    and "\<not> fails env (CarFindOne (params_id req) (user_id usr))"
    and "find (owned (params_id req) (user_id usr)) (cars w) = Some c"
    and "images c = before @ url # after"
    and "\<forall>u \<in> set before. \<not> fails env (CloudDestroy (destroy_target u))"
  shows "\<exists>rest. trace (snd (delete_handler env w req)) =
            trace w @ CarFindOne (params_id req) (user_id usr) #
              map (\<lambda>u. CloudDestroy (destroy_target u)) before @
              CloudDestroy (destroy_target url) # rest"
proof (cases "fails env (CloudDestroy (destroy_target url))")
  case True
  have "trace (snd (delete_handler env w req)) =
      trace w @ CarFindOne (params_id req) (user_id usr) #
        map (\<lambda>u. CloudDestroy (destroy_target u)) (before @ [url])"
    unfolding delete_handler_failure[OF assms True] by simp
  then show ?thesis
    by simp
next
  case ok: False
  show ?thesis
  proof (cases "\<forall>u \<in> set after. \<not> fails env (CloudDestroy (destroy_target u))")
    case True
    with ok assms(4,5)
    have all: "\<forall>u \<in> set (images c). \<not> fails env (CloudDestroy (destroy_target u))"
      by auto
    have "trace (snd (delete_handler env w req)) =
        trace w @ CarFindOne (params_id req) (user_id usr) #
          map (\<lambda>u. CloudDestroy (destroy_target u)) (images c) @
          [CarFindOneAndDelete (params_id req) (user_id usr)]"
      unfolding delete_handler_all_ok[OF assms(1-3) all] by simp
    then show ?thesis
      unfolding assms(4) by simp
  next
    case False
    then have "\<exists>u \<in> set after. fails env (CloudDestroy (destroy_target u))"
      by blast
    from split_list_first_prop[OF this] obtain mid bad post where
      sp: "after = mid @ bad # post" and
      bad: "fails env (CloudDestroy (destroy_target bad))" and
      mid: "\<forall>u \<in> set mid. \<not> fails env (CloudDestroy (destroy_target u))"
      by blast
    have i: "images c = (before @ url # mid) @ bad # post"
      using assms(4) sp by simp
    have b: "\<forall>u \<in> set (before @ url # mid). \<not> fails env (CloudDestroy (destroy_target u))"
      using assms(5) ok mid by auto
    have "trace (snd (delete_handler env w req)) =
        trace w @ CarFindOne (params_id req) (user_id usr) #
          map (\<lambda>u. CloudDestroy (destroy_target u)) ((before @ url # mid) @ [bad])"
      unfolding delete_handler_failure[OF assms(1-3) i b bad] by simp
    then show ?thesis
      by simp
  qed
qed

text \<open>
  C2. Deleting an owned, existing record destroys its images one after the other. If
  the call for \<open>bad\<close> is the first to fail, the calls issued are exactly those for the
  images up to and including \<open>bad\<close>, nothing after it and no deletion of the record; the
  answer is 500, the records are as before and a following Get returns the record. The
  records change only if every destroy call succeeded, all of them issued before the one
  \<^verbatim>\<open>findOneAndDelete\<close>; and if that succeeds too, the record is removed with a 200.
\<close>

theorem delete_is_all_or_nothing:
  assumes "req_user req = Some usr"
    and "\<not> fails env (CarFindOne (params_id req) (user_id usr))"
    and "find (owned (params_id req) (user_id usr)) (cars w) = Some c"
  shows "(\<forall>before bad after.
            images c = before @ bad # after \<and>
            (\<forall>url \<in> set before. \<not> fails env (CloudDestroy (destroy_target url))) \<and>
            fails env (CloudDestroy (destroy_target bad)) \<longrightarrow>
              fst (delete_handler env w req) = reply 500 (ErrorBody (U ''Error deleting car'')) \<and>
              cars (snd (delete_handler env w req)) = cars w \<and>
              trace (snd (delete_handler env w req)) =
                trace w @ CarFindOne (params_id req) (user_id usr) #
                  map (\<lambda>url. CloudDestroy (destroy_target url)) (before @ [bad]) \<and>
              fst (get_handler env (snd (delete_handler env w req)) req) =
                reply 200 (CarBody (Some c))) \<and>
         (cars (snd (delete_handler env w req)) \<noteq> cars w \<longrightarrow>
            (\<forall>url \<in> set (images c). \<not> fails env (CloudDestroy (destroy_target url))) \<and>
            trace (snd (delete_handler env w req)) =
              trace w @ CarFindOne (params_id req) (user_id usr) #
                map (\<lambda>url. CloudDestroy (destroy_target url)) (images c) @
                [CarFindOneAndDelete (params_id req) (user_id usr)]) \<and>
         ((\<forall>url \<in> set (images c). \<not> fails env (CloudDestroy (destroy_target url))) \<and>
          \<not> fails env (CarFindOneAndDelete (params_id req) (user_id usr)) \<longrightarrow>
            fst (delete_handler env w req) =
              reply 200 (MessageBody (U ''Car deleted successfully'')) \<and>
            cars (snd (delete_handler env w req)) =
              remove_first (owned (params_id req) (user_id usr)) (cars w))"
proof (intro conjI allI impI)
  fix before bad after
  assume a: "images c = before @ bad # after \<and>
            (\<forall>url \<in> set before. \<not> fails env (CloudDestroy (destroy_target url))) \<and>
            fails env (CloudDestroy (destroy_target bad))"
  then have run: "delete_handler env w req =
     (reply 500 (ErrorBody (U ''Error deleting car'')),
      w\<lparr>trace := trace w @ CarFindOne (params_id req) (user_id usr) #
           map (\<lambda>url. CloudDestroy (destroy_target url)) (before @ [bad])\<rparr>)"
    using delete_handler_failure[OF assms] by blast
  show "fst (delete_handler env w req) = reply 500 (ErrorBody (U ''Error deleting car''))"
    by (simp add: run)
  show "cars (snd (delete_handler env w req)) = cars w"
    by (simp add: run)
  show "trace (snd (delete_handler env w req)) =
      trace w @ CarFindOne (params_id req) (user_id usr) #
        map (\<lambda>url. CloudDestroy (destroy_target url)) (before @ [bad])"
    by (simp add: run)
  show "fst (get_handler env (snd (delete_handler env w req)) req) = reply 200 (CarBody (Some c))"
    using assms by (simp add: run get_handler_def Car_findOne_ok)
next
  assume ch: "cars (snd (delete_handler env w req)) \<noteq> cars w"
  show ok: "\<forall>url \<in> set (images c). \<not> fails env (CloudDestroy (destroy_target url))"
    using delete_handler_cars_changed[OF assms ch] .
  show "trace (snd (delete_handler env w req)) =
      trace w @ CarFindOne (params_id req) (user_id usr) #
        map (\<lambda>url. CloudDestroy (destroy_target url)) (images c) @
        [CarFindOneAndDelete (params_id req) (user_id usr)]"
    by (simp add: delete_handler_all_ok[OF assms ok])
next
  assume "(\<forall>url \<in> set (images c). \<not> fails env (CloudDestroy (destroy_target url))) \<and>
          \<not> fails env (CarFindOneAndDelete (params_id req) (user_id usr))"
  then have ok: "\<forall>url \<in> set (images c). \<not> fails env (CloudDestroy (destroy_target url))"
    and d: "\<not> fails env (CarFindOneAndDelete (params_id req) (user_id usr))"
    by blast+
  show "fst (delete_handler env w req) = reply 200 (MessageBody (U ''Car deleted successfully''))"
    by (simp add: delete_handler_all_ok[OF assms ok] d)
  show "cars (snd (delete_handler env w req)) =
      remove_first (owned (params_id req) (user_id usr)) (cars w)"
    by (simp add: delete_handler_all_ok[OF assms ok] d)
qed

theorem delete_witness:
  "req_user ex_request = Some \<lparr>user_id = U ''userA''\<rparr> \<and>
   find (owned (params_id ex_request) (U ''userA'')) (cars ex_world) = Some ex_car \<and>
   images ex_car = [U ''https://img.example/v1/cars/urlA.jpg''] @
                     U ''https://img.example/v1/cars/urlC.png'' # [] \<and>
   \<not> fails ex_env_failing
       (CloudDestroy (destroy_target (U ''https://img.example/v1/cars/urlA.jpg''))) \<and>
   fails ex_env_failing
     (CloudDestroy (destroy_target (U ''https://img.example/v1/cars/urlC.png''))) \<and>
   fst (delete_handler ex_env_failing ex_world ex_request) =
     reply 500 (ErrorBody (U ''Error deleting car'')) \<and>
   cars (snd (delete_handler ex_env_failing ex_world ex_request)) = cars ex_world \<and>
   trace (snd (delete_handler ex_env_failing ex_world ex_request)) =
     [CarFindOne (U ''car1'') (U ''userA''), CloudDestroy (U ''cars/urlA''),
      CloudDestroy (U ''cars/urlC'')] \<and>
   fst (get_handler ex_env_failing (snd (delete_handler ex_env_failing ex_world ex_request))
          ex_request) = reply 200 (CarBody (Some ex_car)) \<and>
   fst (delete_handler ex_env ex_world ex_request) =
     reply 200 (MessageBody (U ''Car deleted successfully'')) \<and>
   cars (snd (delete_handler ex_env ex_world ex_request)) = []"
proof -
  let ?usr = "\<lparr>user_id = U ''userA''\<rparr>"
  let ?a = "U ''https://img.example/v1/cars/urlA.jpg''"
  let ?c = "U ''https://img.example/v1/cars/urlC.png''"
  have h1: "req_user ex_request = Some ?usr" by code_simp
  have h2: "\<not> fails ex_env_failing (CarFindOne (params_id ex_request) (user_id ?usr))"
    by (simp add: ex_env_failing_def)
  have h2': "\<not> fails ex_env (CarFindOne (params_id ex_request) (user_id ?usr))"
    by (simp add: ex_env_def)
  have h3: "find (owned (params_id ex_request) (user_id ?usr)) (cars ex_world) = Some ex_car"
    by code_simp
  have i: "images ex_car = [?a] @ ?c # []" by (simp add: ex_car_def)
  have ta: "destroy_target ?a = U ''cars/urlA''" by code_simp
  have tc: "destroy_target ?c = U ''cars/urlC''" by code_simp
  have fa: "\<not> fails ex_env_failing (CloudDestroy (destroy_target ?a))"
    unfolding ta by code_simp
  have fc: "fails ex_env_failing (CloudDestroy (destroy_target ?c))"
    unfolding tc by code_simp
  have pre: "images ex_car = [?a] @ ?c # [] \<and>
      (\<forall>url \<in> set [?a]. \<not> fails ex_env_failing (CloudDestroy (destroy_target url))) \<and>
      fails ex_env_failing (CloudDestroy (destroy_target ?c))"
    using i fa fc by simp
  have ok: "(\<forall>url \<in> set (images ex_car). \<not> fails ex_env (CloudDestroy (destroy_target url))) \<and>
      \<not> fails ex_env (CarFindOneAndDelete (params_id ex_request) (user_id ?usr))"
    by (simp add: ex_env_def)
  have p: "params_id ex_request = U ''car1''" by code_simp
  have tr: "trace ex_world = []" by (simp add: ex_world_def)
  have rm: "remove_first (owned (params_id ex_request) (user_id ?usr)) (cars ex_world) = []"
    by code_simp
  note failing = delete_is_all_or_nothing[OF h1 h2 h3, THEN conjunct1, rule_format, OF pre]
  note working = delete_is_all_or_nothing[OF h1 h2' h3, THEN conjunct2, THEN conjunct2,
      rule_format, OF ok]
  have t: "trace (snd (delete_handler ex_env_failing ex_world ex_request)) =
     [CarFindOne (U ''car1'') (U ''userA''), CloudDestroy (U ''cars/urlA''),
      CloudDestroy (U ''cars/urlC'')]"
    using failing by (simp add: p tr ta tc)
  have c: "cars (snd (delete_handler ex_env ex_world ex_request)) = []"
    using working rm by simp
  from failing working t c h1 h3 i fa fc show ?thesis
    by simp
qed

text \<open>
  What the loop sends for an image of a record: \<^verbatim>\<open>cars/\<close> followed by the last path
  segment of the URL up to its first full stop; for a URL \<^verbatim>\<open>.../cars/<name>.<ext>\<close> whose
  name holds no full stop that is \<^verbatim>\<open>cars/<name>\<close>.
\<close>

lemma destroy_target_sent:
  assumes "req_user req = Some usr"
    and "\<not> fails env (CarFindOne (params_id req) (user_id usr))"
    and "find (owned (params_id req) (user_id usr)) (cars w) = Some c"
    and "images c = before @ url # after"
    and "\<forall>u \<in> set before. \<not> fails env (CloudDestroy (destroy_target u))"
  shows "(\<exists>rest. trace (snd (delete_handler env w req)) =
            trace w @ CarFindOne (params_id req) (user_id usr) #
              map (\<lambda>u. CloudDestroy (destroy_target u)) before @
              CloudDestroy (destroy_target url) # rest) \<and>
         destroy_target url =
           U ''cars/'' @ takeWhile (\<lambda>ch. ch \<noteq> 0x2E)
                           (rev (takeWhile (\<lambda>ch. ch \<noteq> 0x2F) (rev url))) \<and>
         (\<forall>pre name ext.
            url = pre @ U ''/cars/'' @ name @ 0x2E # ext \<and>
            0x2F \<notin> set name \<and> 0x2E \<notin> set name \<and> 0x2F \<notin> set ext \<longrightarrow>
              destroy_target url = U ''cars/'' @ name)"
proof (intro conjI allI impI)
  show "\<exists>rest. trace (snd (delete_handler env w req)) =
            trace w @ CarFindOne (params_id req) (user_id usr) #
              map (\<lambda>u. CloudDestroy (destroy_target u)) before @
              CloudDestroy (destroy_target url) # rest"
    using assms by (rule delete_handler_reaches)
  show "destroy_target url =
      U ''cars/'' @ takeWhile (\<lambda>ch. ch \<noteq> 0x2E)
                      (rev (takeWhile (\<lambda>ch. ch \<noteq> 0x2F) (rev url)))"
    by (simp only: destroy_target_def final_segment_def)
next
  fix pre name ext
  assume "url = pre @ U ''/cars/'' @ name @ 0x2E # ext \<and>
            0x2F \<notin> set name \<and> 0x2E \<notin> set name \<and> 0x2F \<notin> set ext"
  then have u: "url = pre @ U ''/cars/'' @ name @ 0x2E # ext"
    and n: "0x2F \<notin> set name" "0x2E \<notin> set name" "0x2F \<notin> set ext"
    by blast+
  show "destroy_target url = U ''cars/'' @ name"
    unfolding u using n by (rule destroy_target_shape)
qed

text \<open>
  C6. The identifier sent for an image is to be the final path segment of its URL
  without the file extension, under \<^verbatim>\<open>cars/\<close>. The loop takes
  \<^verbatim>\<open>split('.')[0]\<close> of the segment, which stops at the first full stop: for the image
  \<^verbatim>\<open>.../cars/front.view.jpg\<close>, whose name before the extension \<^verbatim>\<open>jpg\<close> is
  \<^verbatim>\<open>front.view\<close>, the delete asks the remote store to destroy \<^verbatim>\<open>cars/front\<close> and
  nothing else, then removes the record and answers 200.
\<close>

theorem delete_dotted_image_destroys_other_identifier:
  "map images (cars ex_world_dotted) = [[U ''https://img.example/v1/cars/front.view.jpg'']] \<and>
   U ''https://img.example/v1/cars/front.view.jpg'' =
     U ''https://img.example/v1'' @ U ''/cars/'' @ U ''front.view'' @ U ''.'' @ U ''jpg'' \<and>
   publicId_of (U ''https://img.example/v1/cars/front.view.jpg'') = Some (U ''front'') \<and>
   fst (delete_handler ex_env ex_world_dotted ex_request) =
     reply 200 (MessageBody (U ''Car deleted successfully'')) \<and>
   cars (snd (delete_handler ex_env ex_world_dotted ex_request)) = [] \<and>
   trace (snd (delete_handler ex_env ex_world_dotted ex_request)) =
     [CarFindOne (U ''car1'') (U ''userA''), CloudDestroy (U ''cars/front''),
      CarFindOneAndDelete (U ''car1'') (U ''userA'')] \<and>
   U ''cars/front'' \<noteq> U ''cars/front.view''"
  by code_simp

end
